theory Spec2Isabelle
  imports Main
begin

section \<open>Qt value types used by the extra-compiler engine\<close>

text \<open>
  The engine of \<^verbatim>\<open>extracompiler.cpp\<close> is an event-driven object that lives on one
  control thread. Its handlers are modelled as functions that take the object's state and
  return the new one; everything the handlers read from outside the object (the file
  system, the editors and their documents, the clocks, the virtual hooks of the subclass,
  the futures of the worker pool) is an explicit argument.
\<close>

type_synonym FilePath = string

text \<open>
  A \<^verbatim>\<open>QByteArray\<close> is either null (default constructed) or holds bytes. Its
  \<^verbatim>\<open>operator==\<close> compares the bytes only, so a null array equals an empty one.
\<close>

datatype QByteArray = Null | Bytes string

fun constData :: "QByteArray \<Rightarrow> string" where
  "constData Null = []"
| "constData (Bytes b) = b"

fun isNull :: "QByteArray \<Rightarrow> bool" where
  "isNull Null = True"
| "isNull (Bytes b) = False"

definition qba_eq :: "QByteArray \<Rightarrow> QByteArray \<Rightarrow> bool" where
  "qba_eq a b = (constData a = constData b)"

text \<open>
  A \<^verbatim>\<open>QDateTime\<close> is invalid (default constructed) or a point in time, in
  milliseconds. Qt orders an invalid date-time before every valid one;
  \<^verbatim>\<open>a > b\<close> is \<^verbatim>\<open>b < a\<close> and \<^verbatim>\<open>a >= b\<close> is \<^verbatim>\<open>!(a < b)\<close>.
\<close>

datatype QDateTime = Invalid | MSecs int

fun isValid :: "QDateTime \<Rightarrow> bool" where
  "isValid Invalid = False"
| "isValid (MSecs t) = True"

fun dt_less :: "QDateTime \<Rightarrow> QDateTime \<Rightarrow> bool" where
  "dt_less Invalid b = isValid b"
| "dt_less (MSecs x) Invalid = False"
| "dt_less (MSecs x) (MSecs y) = (x < y)"

definition dt_greater :: "QDateTime \<Rightarrow> QDateTime \<Rightarrow> bool" where
  "dt_greater a b = dt_less b a"

definition dt_ge :: "QDateTime \<Rightarrow> QDateTime \<Rightarrow> bool" where
  "dt_ge a b = (\<not> dt_less a b)"

subsection \<open>The file system\<close>

text \<open>
  What the engine asks of a path: whether the file exists, its modification time, whether
  \<^verbatim>\<open>QFile::open(ReadOnly | Text)\<close> succeeds, what \<^verbatim>\<open>readAll\<close> returns then,
  and whether the file is executable.
\<close>

record file_info =
  f_lastModified :: int
  f_openable :: bool
  f_data :: QByteArray
  f_executable :: bool

type_synonym filesystem = "FilePath \<Rightarrow> file_info option"

definition lastModified :: "filesystem \<Rightarrow> FilePath \<Rightarrow> QDateTime" where
  "lastModified fs p = (case fs p of None \<Rightarrow> Invalid | Some fi \<Rightarrow> MSecs (f_lastModified fi))"

definition isExecutable :: "filesystem \<Rightarrow> FilePath \<Rightarrow> bool" where
  "isExecutable fs p = (case fs p of None \<Rightarrow> False | Some fi \<Rightarrow> f_executable fi)"

text \<open>\<^verbatim>\<open>QFile file(p); if (file.open(...)) ... file.readAll()\<close>: None when open fails.\<close>

definition open_readAll :: "filesystem \<Rightarrow> FilePath \<Rightarrow> QByteArray option" where
  "open_readAll fs p =
     (case fs p of
        None \<Rightarrow> None
      | Some fi \<Rightarrow> if f_openable fi then Some (f_data fi) else None)"

subsection \<open>The content hash\<close>

text \<open>
  \<^verbatim>\<open>FileNameToContentsHash\<close> is a \<^verbatim>\<open>QHash<FilePath, QByteArray>\<close>: a list of
  entries with distinct keys, in the order in which the hash enumerates them. Qt leaves
  that order unspecified; the model keeps the order of first insertion, and the theorems
  below hold for every order.
\<close>

type_synonym FileNameToContentsHash = "(FilePath \<times> QByteArray) list"

fun hash_insert :: "FilePath \<Rightarrow> QByteArray \<Rightarrow> FileNameToContentsHash \<Rightarrow> FileNameToContentsHash" where
  "hash_insert k v [] = [(k, v)]"
| "hash_insert k v ((k', v') # h) =
     (if k' = k then (k, v) # h else (k', v') # hash_insert k v h)"

definition hash_keys :: "FileNameToContentsHash \<Rightarrow> FilePath list" where
  "hash_keys h = map fst h"

text \<open>\<^verbatim>\<open>QHash::value(key)\<close>: a default-constructed value when the key is absent.\<close>

definition hash_value :: "FileNameToContentsHash \<Rightarrow> FilePath \<Rightarrow> QByteArray" where
  "hash_value h k = (case map_of h k of None \<Rightarrow> Null | Some v \<Rightarrow> v)"

text \<open>Assignment through the iterator returned by \<^verbatim>\<open>find\<close>: the entry keeps its place.\<close>

fun hash_assign :: "FilePath \<Rightarrow> QByteArray \<Rightarrow> FileNameToContentsHash \<Rightarrow> FileNameToContentsHash" where
  "hash_assign k v [] = []"
| "hash_assign k v ((k', v') # h) =
     (if k' = k then (k', v) # h else (k', v') # hash_assign k v h)"

section \<open>The compiler instance\<close>

text \<open>
  A deferred byte source: the bytes themselves, or a path that is read when the provider
  is called on the worker thread.
\<close>

datatype ContentProvider = Literal QByteArray | FromFile FilePath

fun provide :: "filesystem \<Rightarrow> ContentProvider \<Rightarrow> QByteArray" where
  "provide fs (Literal sourceContents) = sourceContents"
| "provide fs (FromFile fileName) =
     (case open_readAll fs fileName of None \<Rightarrow> Null | Some bytes \<Rightarrow> bytes)"

type_synonym Environment = "(string \<times> string) list"

text \<open>One call of \<^verbatim>\<open>Utils::runAsync\<close>: the watcher that owns the future and the arguments
  captured for \<^verbatim>\<open>runInThread\<close>.\<close>

record job =
  j_watcher :: nat
  j_cmd :: FilePath
  j_workDir :: FilePath
  j_args :: "string list"
  j_provider :: ContentProvider
  j_env :: Environment

text \<open>
  The fields of \<^verbatim>\<open>ExtraCompilerPrivate\<close> and of \<^verbatim>\<open>ProcessExtraCompiler\<close>, followed by
  what the object does to its surroundings:
  \<^item> \<open>timer\<close>: the single-shot \<^verbatim>\<open>QTimer\<close>, inactive or active with the clock value at
    which it expires;
  \<^item> \<open>connections\<close>: the documents whose \<^verbatim>\<open>contentsChanged\<close> signal is connected to
    \<^verbatim>\<open>setDirty\<close> (Qt keeps one entry per \<^verbatim>\<open>connect\<close> call);
  \<^item> \<open>m_watcher\<close>: the tracked \<^verbatim>\<open>QFutureWatcher\<close>, \<open>watchers\<close> the watcher objects
    that are alive, \<open>nextWatcher\<close> the identity the next \<^verbatim>\<open>new\<close> returns;
  \<^item> \<open>emitted\<close>: the \<^verbatim>\<open>contentsChanged(file)\<close> signals emitted so far;
  \<^item> \<open>started\<close>: the jobs handed to the worker pool so far;
  \<^item> \<open>deferred\<close>: the number of pending \<^verbatim>\<open>QTimer::singleShot(0, ...)\<close> calls of the
    constructor.

  The list of compile issues and its display in the editor widget
  (\<^verbatim>\<open>setCompileIssues\<close>, \<^verbatim>\<open>updateIssues\<close>) touch none of these fields and are
  left out.
\<close>

record ExtraCompiler =
  project :: nat
  source :: FilePath
  contents :: FileNameToContentsHash
  compileTime :: QDateTime
  lastEditor :: "nat option"
  dirty :: bool
  timer :: "nat option"
  connections :: "nat list"
  m_watcher :: "nat option"
  watchers :: "nat list"
  nextWatcher :: nat
  emitted :: "FilePath list"
  started :: "job list"
  deferred :: nat

text \<open>
  What a handler reads from outside the object when it runs: the file system, the
  document of each editor, the path and the buffer of each document, the build manager,
  the wall clock, the monotonic clock of the event loop (milliseconds), the virtual hooks
  \<^verbatim>\<open>command()\<close>, \<^verbatim>\<open>workingDirectory()\<close>, \<^verbatim>\<open>arguments()\<close>, the build environment, and for
  each watcher the result its future reported (None when \<^verbatim>\<open>resultCount()\<close> is 0).
\<close>

record ide =
  files :: filesystem
  editorDocument :: "nat \<Rightarrow> nat"
  documentFilePath :: "nat \<Rightarrow> FilePath"
  documentContents :: "nat \<Rightarrow> QByteArray"
  isBuilding :: "nat \<Rightarrow> bool"
  currentDateTime :: int
  clock :: nat
  command :: FilePath
  workingDirectory :: FilePath
  arguments :: "string list"
  buildEnvironment :: Environment
  futureResult :: "nat \<Rightarrow> FileNameToContentsHash option"

subsection \<open>Content store\<close>

definition content :: "ExtraCompiler \<Rightarrow> FilePath \<Rightarrow> QByteArray" where
  "content s file = hash_value (contents s) file"

definition targets :: "ExtraCompiler \<Rightarrow> FilePath list" where
  "targets s = hash_keys (contents s)"

definition setCompileTime :: "QDateTime \<Rightarrow> ExtraCompiler \<Rightarrow> ExtraCompiler" where
  "setCompileTime time s = s\<lparr>compileTime := time\<rparr>"

definition setContent :: "FilePath \<Rightarrow> QByteArray \<Rightarrow> ExtraCompiler \<Rightarrow> ExtraCompiler" where
  "setContent file bytes s =
     (case map_of (contents s) file of
        None \<Rightarrow> s
      | Some v \<Rightarrow>
          if \<not> qba_eq v bytes
          then s\<lparr>contents := hash_assign file bytes (contents s), emitted := emitted s @ [file]\<rparr>
          else s)"

subsection \<open>Process-backed runner: scheduling side\<close>

definition runImpl :: "ide \<Rightarrow> ContentProvider \<Rightarrow> ExtraCompiler \<Rightarrow> ExtraCompiler" where
  "runImpl env provider s =
     (let alive = (case m_watcher s of None \<Rightarrow> watchers s | Some w \<Rightarrow> removeAll w (watchers s));
          w' = nextWatcher s;
          j = \<lparr>j_watcher = w', j_cmd = command env, j_workDir = workingDirectory env,
               j_args = arguments env, j_provider = provider, j_env = buildEnvironment env\<rparr>
      in s\<lparr>m_watcher := Some w', watchers := alive @ [w'], nextWatcher := Suc w',
           started := started s @ [j]\<rparr>)"

definition run_bytes :: "ide \<Rightarrow> QByteArray \<Rightarrow> ExtraCompiler \<Rightarrow> ExtraCompiler" where
  "run_bytes env sourceContents s = runImpl env (Literal sourceContents) s"

definition run_file :: "ide \<Rightarrow> FilePath \<Rightarrow> ExtraCompiler \<Rightarrow> ExtraCompiler" where
  "run_file env fileName s = runImpl env (FromFile fileName) s"

definition install :: "FileNameToContentsHash \<Rightarrow> ExtraCompiler \<Rightarrow> ExtraCompiler" where
  "install data s = foldl (\<lambda>s' (k, v). setContent k v s') s data"

definition cleanUp :: "ide \<Rightarrow> ExtraCompiler \<Rightarrow> ExtraCompiler" where
  "cleanUp env s =
     (case m_watcher s of
        None \<Rightarrow> s
      | Some w \<Rightarrow>
          let future = futureResult env w;
              s1 = s\<lparr>watchers := removeAll w (watchers s), m_watcher := None\<rparr>
          in (case future of
                None \<Rightarrow> s1
              | Some data \<Rightarrow>
                  if data = [] then s1
                  else setCompileTime (MSecs (currentDateTime env)) (install data s1)))"

text \<open>
  The \<^verbatim>\<open>finished\<close> signal of a watcher is connected to \<^verbatim>\<open>cleanUp\<close>. Qt delivers the
  signal of a watcher only while the watcher object is alive.
\<close>

definition watcherFinished :: "ide \<Rightarrow> nat \<Rightarrow> ExtraCompiler \<Rightarrow> ExtraCompiler" where
  "watcherFinished env w s = (if w \<in> set (watchers s) then cleanUp env s else s)"

datatype watcher_call = Cancel nat | WaitForFinished nat

text \<open>The destructor of \<^verbatim>\<open>ProcessExtraCompiler\<close>: the calls it makes on the watcher.\<close>

definition destructor :: "ExtraCompiler \<Rightarrow> watcher_call list" where
  "destructor s = (case m_watcher s of None \<Rightarrow> [] | Some w \<Rightarrow> [Cancel w, WaitForFinished w])"

subsection \<open>Construction\<close>

definition initial :: "nat \<Rightarrow> FilePath \<Rightarrow> FilePath list \<Rightarrow> ExtraCompiler" where
  "initial proj src tgts =
     \<lparr>project = proj, source = src,
      contents = foldl (\<lambda>h target. hash_insert target Null h) [] tgts,
      compileTime = Invalid, lastEditor = None, dirty = False, timer = None,
      connections = [], m_watcher = None, watchers = [], nextWatcher = 0,
      emitted = [], started = [], deferred = 0\<rparr>"

text \<open>The body of the constructor's loop over the targets.\<close>

definition scan_target :: "filesystem \<Rightarrow> QDateTime \<Rightarrow> ExtraCompiler \<Rightarrow> FilePath \<Rightarrow> ExtraCompiler" where
  "scan_target fs sourceTime s target =
     (case fs target of
        None \<Rightarrow> s\<lparr>dirty := True\<rparr>
      | Some fi \<Rightarrow>
          let lm = MSecs (f_lastModified fi);
              s1 = (if dt_less lm sourceTime then s\<lparr>dirty := True\<rparr> else s);
              s2 = (if \<not> isValid (compileTime s1) \<or> dt_greater (compileTime s1) lm
                    then s1\<lparr>compileTime := lm\<rparr> else s1)
          in (case open_readAll fs target of
                None \<Rightarrow> s2
              | Some bytes \<Rightarrow> setContent target bytes s2))"

definition scan_targets :: "filesystem \<Rightarrow> FilePath list \<Rightarrow> ExtraCompiler \<Rightarrow> ExtraCompiler" where
  "scan_targets fs tgts s = foldl (scan_target fs (lastModified fs (source s))) s tgts"

definition ExtraCompiler_ctor :: "ide \<Rightarrow> nat \<Rightarrow> FilePath \<Rightarrow> FilePath list \<Rightarrow> ExtraCompiler" where
  "ExtraCompiler_ctor env proj src tgts =
     (let s = scan_targets (files env) tgts (initial proj src tgts)
      in if dirty s then s\<lparr>dirty := False, deferred := Suc (deferred s)\<rparr> else s)"

text \<open>The lambda of \<^verbatim>\<open>QTimer::singleShot(0, ...)\<close>, when the event loop calls it.\<close>

definition deferredRun :: "ide \<Rightarrow> ExtraCompiler \<Rightarrow> ExtraCompiler" where
  "deferredRun env s =
     (case deferred s of
        0 \<Rightarrow> s
      | Suc n \<Rightarrow> run_file env (source s) (s\<lparr>deferred := n\<rparr>))"

subsection \<open>Reconciliation with the build\<close>

text \<open>The lambda that \<^verbatim>\<open>onTargetsBuilt\<close> passes to \<^verbatim>\<open>forEachTarget\<close>.\<close>

definition reconcile_target :: "filesystem \<Rightarrow> QDateTime \<Rightarrow> ExtraCompiler \<Rightarrow> FilePath \<Rightarrow> ExtraCompiler" where
  "reconcile_target fs sourceTime s target =
     (let generateTime = lastModified fs target
      in if isValid generateTime \<and> dt_greater generateTime sourceTime
         then if dt_ge (compileTime s) generateTime then s
              else (case open_readAll fs target of
                      None \<Rightarrow> s
                    | Some bytes \<Rightarrow> setContent target bytes (s\<lparr>compileTime := generateTime\<rparr>))
         else s)"

definition onTargetsBuilt :: "ide \<Rightarrow> nat \<Rightarrow> ExtraCompiler \<Rightarrow> ExtraCompiler" where
  "onTargetsBuilt env proj s =
     (if proj \<noteq> project s \<or> isBuilding env proj then s
      else let sourceTime = lastModified (files env) (source s)
           in if isValid (compileTime s) \<and> dt_ge (compileTime s) sourceTime then s
              else foldl (reconcile_target (files env) sourceTime) s (targets s))"

subsection \<open>Editor liveness bridge\<close>

definition setDirty :: "ide \<Rightarrow> ExtraCompiler \<Rightarrow> ExtraCompiler" where
  "setDirty env s = s\<lparr>dirty := True, timer := Some (clock env + 1000)\<rparr>"

text \<open>A document emits \<^verbatim>\<open>contentsChanged\<close>: the slot runs once per connection.\<close>

definition documentContentsChanged :: "ide \<Rightarrow> nat \<Rightarrow> ExtraCompiler \<Rightarrow> ExtraCompiler" where
  "documentContentsChanged env doc s =
     foldl (\<lambda>s' c. if c = doc then setDirty env s' else s') s (connections s)"

text \<open>The lambda connected to \<^verbatim>\<open>QTimer::timeout\<close>.\<close>

definition timeout_lambda :: "ide \<Rightarrow> ExtraCompiler \<Rightarrow> ExtraCompiler" where
  "timeout_lambda env s =
     (case lastEditor s of
        None \<Rightarrow> s
      | Some e \<Rightarrow>
          if dirty s
          then run_bytes env (documentContents env (editorDocument env e)) (s\<lparr>dirty := False\<rparr>)
          else s)"

text \<open>
  The event loop looks at the timer: a single-shot timer that is active and whose
  interval has elapsed becomes inactive and emits \<^verbatim>\<open>timeout\<close>.
\<close>

definition timerEvent :: "ide \<Rightarrow> ExtraCompiler \<Rightarrow> ExtraCompiler" where
  "timerEvent env s =
     (case timer s of
        None \<Rightarrow> s
      | Some deadline \<Rightarrow>
          if clock env < deadline then s
          else timeout_lambda env (s\<lparr>timer := None\<rparr>))"

definition onEditorChanged :: "ide \<Rightarrow> nat option \<Rightarrow> ExtraCompiler \<Rightarrow> ExtraCompiler" where
  "onEditorChanged env editor s =
     (let s2 = (case lastEditor s of
                  None \<Rightarrow> s
                | Some le \<Rightarrow>
                    let doc = editorDocument env le;
                        s1 = s\<lparr>connections := removeAll doc (connections s)\<rparr>
                    in if dirty s1
                       then run_bytes env (documentContents env doc) (s1\<lparr>dirty := False\<rparr>)
                       else s1)
      in case editor of
           None \<Rightarrow> s2\<lparr>lastEditor := None\<rparr>
         | Some e \<Rightarrow>
             if documentFilePath env (editorDocument env e) = source s2
             then s2\<lparr>lastEditor := Some e,
                     connections := connections s2 @ [editorDocument env e]\<rparr>
             else s2\<lparr>lastEditor := None\<rparr>)"

definition onEditorAboutToClose :: "ide \<Rightarrow> nat \<Rightarrow> ExtraCompiler \<Rightarrow> ExtraCompiler" where
  "onEditorAboutToClose env editor s =
     (if lastEditor s \<noteq> Some editor then s
      else let doc = editorDocument env editor;
               s1 = s\<lparr>connections := removeAll doc (connections s)\<rparr>;
               s2 = (if dirty s1
                     then run_bytes env (documentContents env doc) (s1\<lparr>dirty := False\<rparr>)
                     else s1)
           in s2\<lparr>lastEditor := None\<rparr>)"

subsection \<open>Process-backed runner: worker side\<close>

text \<open>
  What the external process does once \<^verbatim>\<open>runInThread\<close> has started it: whether
  \<^verbatim>\<open>waitForStarted\<close> succeeds, whether the future is already cancelled then, what the
  \<open>i\<close>-th turn of the polling loop sees (the result of \<^verbatim>\<open>waitForFinished(200)\<close> and of
  \<^verbatim>\<open>isCanceled()\<close>), whether the process is still running after the loop, and the hash
  that \<^verbatim>\<open>handleProcessFinished\<close> makes of its output.
\<close>

record process =
  p_waitForStarted :: bool
  p_canceledAtStart :: bool
  p_polls :: "nat \<Rightarrow> bool \<times> bool"
  p_runningAfterLoop :: bool
  p_finished :: FileNameToContentsHash

text \<open>What one call of \<^verbatim>\<open>runInThread\<close> did.\<close>

record thread_outcome =
  t_spawned :: bool
  t_handledError :: bool
  t_handledStarted :: "QByteArray option"
  t_killed :: bool
  t_reported :: "FileNameToContentsHash option"

definition no_spawn :: thread_outcome where
  "no_spawn = \<lparr>t_spawned = False, t_handledError = False, t_handledStarted = None,
               t_killed = False, t_reported = None\<rparr>"

text \<open>The \<^verbatim>\<open>forever\<close> loop: it returns the last value of \<^verbatim>\<open>isCanceled\<close>, if it ends.\<close>

partial_function (option) poll_loop :: "(nat \<Rightarrow> bool \<times> bool) \<Rightarrow> nat \<Rightarrow> bool option" where
  "poll_loop polls i =
     (if fst (polls i) \<or> snd (polls i) then Some (snd (polls i))
      else poll_loop polls (Suc i))"

definition runInThread :: "filesystem \<Rightarrow> (QByteArray \<Rightarrow> bool) \<Rightarrow> process \<Rightarrow> job \<Rightarrow> thread_outcome option" where
  "runInThread fs prepareToRun proc j =
     (if j_cmd j = [] \<or> \<not> isExecutable fs (j_cmd j) then Some no_spawn
      else let sourceContents = provide fs (j_provider j)
           in if isNull sourceContents \<or> \<not> prepareToRun sourceContents then Some no_spawn
              else if \<not> p_waitForStarted proc
                   then Some (no_spawn\<lparr>t_spawned := True, t_handledError := True\<rparr>)
                   else (case (if p_canceledAtStart proc then Some True
                               else poll_loop (p_polls proc) 0) of
                           None \<Rightarrow> None
                         | Some isCanceled \<Rightarrow>
                             let out = no_spawn\<lparr>t_spawned := True,
                                         t_handledStarted := (if p_canceledAtStart proc then None
                                                              else Some sourceContents)\<rparr>
                             in if isCanceled \<or> p_runningAfterLoop proc
                                then Some (out\<lparr>t_killed := True\<rparr>)
                                else Some (out\<lparr>t_reported := Some (p_finished proc)\<rparr>)))"

section \<open>The events that reach an instance\<close>

text \<open>
  Everything that can call into an instance after its construction: the signals it is
  connected to, the timers it started, the completion of a watcher, and the operations
  that subclasses and dependents call directly.
\<close>

datatype event =
    BuildStateChanged nat
  | CurrentEditorChanged "nat option"
  | EditorAboutToClose nat
  | DocumentContentsChanged nat
  | TimerEvent
  | DeferredRun
  | WatcherFinished nat
  | SetContent FilePath QByteArray
  | SetCompileTime QDateTime
  | RunBytes QByteArray
  | RunFile FilePath

fun step :: "ide \<Rightarrow> event \<Rightarrow> ExtraCompiler \<Rightarrow> ExtraCompiler" where
  "step env (BuildStateChanged proj) s = onTargetsBuilt env proj s"
| "step env (CurrentEditorChanged editor) s = onEditorChanged env editor s"
| "step env (EditorAboutToClose editor) s = onEditorAboutToClose env editor s"
| "step env (DocumentContentsChanged doc) s = documentContentsChanged env doc s"
| "step env TimerEvent s = timerEvent env s"
| "step env DeferredRun s = deferredRun env s"
| "step env (WatcherFinished w) s = watcherFinished env w s"
| "step env (SetContent file bytes) s = setContent file bytes s"
| "step env (SetCompileTime time) s = setCompileTime time s"
| "step env (RunBytes sourceContents) s = run_bytes env sourceContents s"
| "step env (RunFile fileName) s = run_file env fileName s"

text \<open>A history: each event with what the surroundings look like when it is handled.\<close>

definition exec :: "(ide \<times> event) list \<Rightarrow> ExtraCompiler \<Rightarrow> ExtraCompiler" where
  "exec history s = foldl (\<lambda>s' (env, ev). step env ev s') s history"

section \<open>Bookkeeping of the watchers\<close>

text \<open>
  Watcher objects are numbered in the order of their creation. At every moment the only
  watcher alive is the tracked one, and it belongs to the job started last.
\<close>

definition tracked_inv :: "ExtraCompiler \<Rightarrow> bool" where
  "tracked_inv s =
     (map j_watcher (started s) = [0..<nextWatcher s]
      \<and> (case m_watcher s of
           None \<Rightarrow> watchers s = []
         | Some w \<Rightarrow> watchers s = [w] \<and> Suc w = nextWatcher s))"

section \<open>A small project\<close>

text \<open>
  A form \<^verbatim>\<open>a.ui\<close> with one generated header that is older than the form, and the
  generator. Editor and document 0 show the form.
\<close>

definition example_files :: filesystem where
  "example_files =
     [''a.ui'' \<mapsto> \<lparr>f_lastModified = 5, f_openable = True, f_data = Bytes ''form'',
                    f_executable = False\<rparr>,
      ''ui_a.h'' \<mapsto> \<lparr>f_lastModified = 3, f_openable = True, f_data = Bytes ''old'',
                     f_executable = False\<rparr>,
      ''uic'' \<mapsto> \<lparr>f_lastModified = 1, f_openable = True, f_data = Bytes ''ELF'',
                  f_executable = True\<rparr>]"

definition example_ide :: ide where
  "example_ide =
     \<lparr>files = example_files,
      editorDocument = (\<lambda>e. e),
      documentFilePath = (\<lambda>d. if d = 0 then ''a.ui'' else ''main.cpp''),
      documentContents = (\<lambda>d. if d = 0 then Bytes ''edited'' else Bytes ''int main''),
      isBuilding = (\<lambda>p. False),
      currentDateTime = 20,
      clock = 0,
      command = ''uic'',
      workingDirectory = [],
      arguments = [],
      buildEnvironment = [],
      futureResult = (\<lambda>w. None)\<rparr>"

text \<open>A generator run that is done at the third poll and is never cancelled.\<close>

definition example_process :: process where
  "example_process =
     \<lparr>p_waitForStarted = True, p_canceledAtStart = False,
      p_polls = (\<lambda>i. (2 \<le> i, False)),
      p_runningAfterLoop = False,
      p_finished = [(''ui_a.h'', Bytes ''new'')]\<rparr>"

text \<open>The same project after its header was regenerated but made unreadable.\<close>

definition locked_files :: filesystem where
  "locked_files =
     [''a.ui'' \<mapsto> \<lparr>f_lastModified = 5, f_openable = True, f_data = Bytes ''form'',
                    f_executable = False\<rparr>,
      ''ui_a.h'' \<mapsto> \<lparr>f_lastModified = 7, f_openable = False, f_data = Bytes ''generated'',
                     f_executable = False\<rparr>]"

text \<open>
  A form with two generated files. Both are older than the form at first; then a build
  writes both again, the header after the implementation, or the other way round.
\<close>

definition stale_files :: filesystem where
  "stale_files =
     [''a.ui'' \<mapsto> \<lparr>f_lastModified = 5, f_openable = True, f_data = Bytes ''form'',
                    f_executable = False\<rparr>,
      ''ui_a.h'' \<mapsto> \<lparr>f_lastModified = 3, f_openable = True, f_data = Bytes ''H1'',
                     f_executable = False\<rparr>,
      ''ui_a.cpp'' \<mapsto> \<lparr>f_lastModified = 3, f_openable = True, f_data = Bytes ''C1'',
                       f_executable = False\<rparr>]"

definition built_files :: "int \<Rightarrow> int \<Rightarrow> filesystem" where
  "built_files header_time impl_time =
     [''a.ui'' \<mapsto> \<lparr>f_lastModified = 5, f_openable = True, f_data = Bytes ''form'',
                    f_executable = False\<rparr>,
      ''ui_a.h'' \<mapsto> \<lparr>f_lastModified = header_time, f_openable = True, f_data = Bytes ''H2'',
                     f_executable = False\<rparr>,
      ''ui_a.cpp'' \<mapsto> \<lparr>f_lastModified = impl_time, f_openable = True, f_data = Bytes ''C2'',
                       f_executable = False\<rparr>]"


text \<open>The form newly created, before anything was generated from it.\<close>

definition source_only_files :: filesystem where
  "source_only_files =
     [''a.ui'' \<mapsto> \<lparr>f_lastModified = 5, f_openable = True, f_data = Bytes ''form'',
                    f_executable = False\<rparr>]"

section \<open>Lemmas\<close>

subsection \<open>Content store\<close>

lemma hash_keys_insert: "set (hash_keys (hash_insert k v h)) = insert k (set (hash_keys h))"
  unfolding hash_keys_def by (induction h) force+

lemma distinct_hash_insert: "distinct (hash_keys h) \<Longrightarrow> distinct (hash_keys (hash_insert k v h))"
proof (induction h)
  case Nil
  then show ?case by (simp add: hash_keys_def)
next
  case (Cons e h)
  have "set (hash_keys (hash_insert k v h)) = insert k (set (hash_keys h))"
    by (rule hash_keys_insert)
  with Cons show ?case by (cases e) (auto simp: hash_keys_def)
qed

lemma hash_keys_assign: "hash_keys (hash_assign k v h) = hash_keys h"
  by (induction h) (auto simp: hash_keys_def)

lemma map_of_hash_assign:
  "map_of (hash_assign k v h) k' = (if k' = k \<and> map_of h k \<noteq> None then Some v else map_of h k')"
  by (induction h) auto

lemma targets_setContent: "targets (setContent file bytes s) = targets s"
  by (simp add: targets_def setContent_def hash_keys_assign split: option.splits)

lemma content_setContent_other:
  "file' \<noteq> file \<Longrightarrow> content (setContent file bytes s) file' = content s file'"
  by (simp add: content_def setContent_def hash_value_def map_of_hash_assign split: option.splits)

lemma content_setContent_same:
  "map_of (contents s) file = Some old \<Longrightarrow>
   content (setContent file bytes s) file = (if qba_eq old bytes then old else bytes)"
  by (simp add: content_def setContent_def hash_value_def map_of_hash_assign)

lemma setContent_undeclared: "map_of (contents s) file = None \<Longrightarrow> setContent file bytes s = s"
  by (simp add: setContent_def)

lemma compileTime_setContent: "compileTime (setContent file bytes s) = compileTime s"
  by (simp add: setContent_def split: option.splits)

subsection \<open>Installing a reported result\<close>

lemma install_Nil: "install [] s = s"
  by (simp add: install_def)

lemma install_Cons: "install ((k, v) # data) s = install data (setContent k v s)"
  by (simp add: install_def)

lemma targets_install: "targets (install data s) = targets s"
  by (induction data arbitrary: s) (auto simp: install_Nil install_Cons targets_setContent)

lemma compileTime_install: "compileTime (install data s) = compileTime s"
  by (induction data arbitrary: s) (auto simp: install_Nil install_Cons compileTime_setContent)

lemma content_install_absent:
  "k \<notin> set (hash_keys data) \<Longrightarrow> content (install data s) k = content s k"
  by (induction data arbitrary: s)
     (auto simp: install_Nil install_Cons hash_keys_def content_setContent_other)

lemma declared_setContent:
  "(map_of (contents (setContent file bytes s)) k = None) = (map_of (contents s) k = None)"
  by (simp add: setContent_def map_of_hash_assign split: option.splits)

lemma content_install_present:
  "distinct (hash_keys data) \<Longrightarrow> (k, v) \<in> set data \<Longrightarrow> map_of (contents s) k \<noteq> None \<Longrightarrow>
   qba_eq (content (install data s) k) v"
proof (induction data arbitrary: s)
  case Nil
  then show ?case by simp
next
  case (Cons e data)
  obtain k' v' where e: "e = (k', v')" by (cases e)
  show ?case
  proof (cases "(k, v) = e")
    case True
    then have absent: "k \<notin> set (hash_keys data)"
      using Cons.prems(1) e by (auto simp: hash_keys_def)
    obtain old where old: "map_of (contents s) k = Some old"
      using Cons.prems(3) by auto
    have "content (install (e # data) s) k = content (setContent k v s) k"
      using True [symmetric] absent by (simp add: install_Cons content_install_absent)
    also have "\<dots> = (if qba_eq old v then old else v)"
      using old by (rule content_setContent_same)
    finally show ?thesis by (simp add: qba_eq_def)
  next
    case False
    then have mem: "(k, v) \<in> set data" using Cons.prems(2) by simp
    have dist: "distinct (hash_keys data)" using Cons.prems(1) by (simp add: hash_keys_def)
    have decl: "map_of (contents (setContent k' v' s)) k \<noteq> None"
      using Cons.prems(3) by (simp add: declared_setContent)
    show ?thesis
      using Cons.IH [OF dist mem decl] by (simp add: e install_Cons)
  qed
qed

lemma setContent_watcher_frame:
  "setContent k v (s\<lparr>watchers := ws, m_watcher := mw\<rparr>) = (setContent k v s)\<lparr>watchers := ws, m_watcher := mw\<rparr>"
  by (simp add: setContent_def split: option.splits)

lemma install_watcher_frame:
  "install data (s\<lparr>watchers := ws, m_watcher := mw\<rparr>) = (install data s)\<lparr>watchers := ws, m_watcher := mw\<rparr>"
proof (induction data arbitrary: s)
  case Nil
  show ?case by (simp add: install_Nil)
next
  case (Cons e data)
  obtain k v where e: "e = (k, v)" by (cases e)
  show ?case unfolding e install_Cons setContent_watcher_frame by (rule Cons.IH)
qed

lemma emitted_install:
  "distinct (hash_keys data) \<Longrightarrow>
   emitted (install data s) =
     emitted s @ map fst (filter (\<lambda>(k, v). map_of (contents s) k \<noteq> None \<and> \<not> qba_eq (content s k) v) data)"
proof (induction data arbitrary: s)
  case Nil
  show ?case by (simp add: install_Nil)
next
  case (Cons e data)
  obtain k v where e: "e = (k, v)" by (cases e)
  have dist: "distinct (hash_keys data)" and absent: "k \<notin> set (hash_keys data)"
    using Cons.prems by (simp_all add: e hash_keys_def)
  have same: "filter (\<lambda>(k', v'). map_of (contents (setContent k v s)) k' \<noteq> None
                        \<and> \<not> qba_eq (content (setContent k v s) k') v') data
            = filter (\<lambda>(k', v'). map_of (contents s) k' \<noteq> None \<and> \<not> qba_eq (content s k') v') data"
  proof (intro filter_cong refl)
    fix x assume x: "x \<in> set data"
    obtain k' v' where kv: "x = (k', v')" by (cases x)
    have "k' \<noteq> k" using absent x kv by (force simp: hash_keys_def)
    then show "(case x of (k', v') \<Rightarrow> map_of (contents (setContent k v s)) k' \<noteq> None
                        \<and> \<not> qba_eq (content (setContent k v s) k') v')
             = (case x of (k', v') \<Rightarrow> map_of (contents s) k' \<noteq> None \<and> \<not> qba_eq (content s k') v')"
      by (simp add: kv declared_setContent content_setContent_other)
  qed
  have first: "emitted (setContent k v s) =
      emitted s @ (if map_of (contents s) k \<noteq> None \<and> \<not> qba_eq (content s k) v then [k] else [])"
    by (auto simp: setContent_def content_def hash_value_def split: option.splits)
  show ?case
    unfolding e install_Cons Cons.IH [OF dist] same first by simp
qed

subsection \<open>Worker and completion\<close>

lemma runInThread_aborts:
  "j_cmd j = [] \<or> \<not> isExecutable fs (j_cmd j)
   \<or> isNull (provide fs (j_provider j)) \<or> \<not> prepareToRun (provide fs (j_provider j)) \<Longrightarrow>
   runInThread fs prepareToRun proc j = Some no_spawn"
  by (auto simp: runInThread_def Let_def)

lemma watcherFinished_no_result:
  "futureResult env w = None \<Longrightarrow> m_watcher s = Some w \<Longrightarrow>
   contents (watcherFinished env w s) = contents s
   \<and> compileTime (watcherFinished env w s) = compileTime s
   \<and> emitted (watcherFinished env w s) = emitted s"
  by (simp add: watcherFinished_def cleanUp_def)

text \<open>The polling loop ends as soon as some poll sees the process done or the run cancelled.\<close>

lemma poll_loop_ends:
  "fst (polls (i + n)) \<or> snd (polls (i + n)) \<Longrightarrow> \<exists>c. poll_loop polls i = Some c"
proof (induction n arbitrary: i)
  case 0
  then show ?case by (subst poll_loop.simps) simp
next
  case (Suc n)
  have "\<exists>c. poll_loop polls (Suc i) = Some c"
    by (rule Suc.IH) (use Suc.prems in simp)
  then show ?case by (subst poll_loop.simps) simp
qed

lemma runInThread_example:
  "runInThread example_files (\<lambda>b. True) example_process
     \<lparr>j_watcher = 0, j_cmd = ''uic'', j_workDir = [], j_args = [],
      j_provider = FromFile ''a.ui'', j_env = []\<rparr>
   = Some \<lparr>t_spawned = True, t_handledError = False, t_handledStarted = Some (Bytes ''form''),
           t_killed = False, t_reported = Some [(''ui_a.h'', Bytes ''new'')]\<rparr>"
proof -
  have "poll_loop (p_polls example_process) 0 = Some False"
    by (subst poll_loop.simps, simp add: example_process_def)+
  then show ?thesis
    by (simp add: runInThread_def isExecutable_def example_files_def open_readAll_def
          example_process_def no_spawn_def Let_def)
qed

subsection \<open>Editor bridge\<close>

lemma run_bytes_fields:
  "lastEditor (run_bytes env b s) = lastEditor s"
  "dirty (run_bytes env b s) = dirty s"
  "source (run_bytes env b s) = source s"
  "connections (run_bytes env b s) = connections s"
  "map j_provider (started (run_bytes env b s)) = map j_provider (started s) @ [Literal b]"
  by (simp_all add: run_bytes_def runImpl_def Let_def)

lemma setDirty_idem: "setDirty env (setDirty env s) = setDirty env s"
  by (simp add: setDirty_def)

lemma foldl_setDirty:
  "foldl (\<lambda>s' c. if c = doc then setDirty env s' else s') s cs
     = (if doc \<in> set cs then setDirty env s else s)"
  by (induction cs arbitrary: s) (auto simp: setDirty_idem)

lemma documentContentsChanged_eq:
  "documentContentsChanged env doc s = (if doc \<in> set (connections s) then setDirty env s else s)"
  by (simp add: documentContentsChanged_def foldl_setDirty)


subsection \<open>Event histories and the bookkeeping of the watchers\<close>

lemma foldl_preserves:
  assumes "\<And>s x. g (f s x) = g s"
  shows "g (foldl f s xs) = g s"
  using assms by (induction xs arbitrary: s) auto

lemma exec_Nil: "exec [] s = s"
  by (simp add: exec_def)

lemma exec_snoc: "exec (history @ [(env, ev)]) s = step env ev (exec history s)"
  by (simp add: exec_def)

lemma setContent_frame:
  "m_watcher (setContent f b s) = m_watcher s"
  "watchers (setContent f b s) = watchers s"
  "nextWatcher (setContent f b s) = nextWatcher s"
  "started (setContent f b s) = started s"
  by (simp_all add: setContent_def split: option.splits)

lemma tracked_inv_cong:
  "m_watcher t = m_watcher s \<Longrightarrow> watchers t = watchers s \<Longrightarrow> nextWatcher t = nextWatcher s \<Longrightarrow>
   started t = started s \<Longrightarrow> tracked_inv t = tracked_inv s"
  by (simp add: tracked_inv_def split: option.splits)

lemma tracked_inv_setContent: "tracked_inv (setContent f b s) = tracked_inv s"
  by (rule tracked_inv_cong) (simp_all add: setContent_frame)

lemma tracked_inv_install: "tracked_inv (install data s) = tracked_inv s"
  unfolding install_def
  by (rule foldl_preserves) (simp add: tracked_inv_setContent split: prod.splits)

lemma tracked_inv_runImpl: "tracked_inv s \<Longrightarrow> tracked_inv (runImpl env provider s)"
  by (auto simp: tracked_inv_def runImpl_def Let_def split: option.splits)

lemma tracked_inv_cleanUp: "tracked_inv s \<Longrightarrow> tracked_inv (cleanUp env s)"
proof -
  assume inv: "tracked_inv s"
  have cleared: "tracked_inv (s\<lparr>watchers := removeAll w (watchers s), m_watcher := None\<rparr>)"
    if "m_watcher s = Some w" for w
    using inv that by (simp add: tracked_inv_def)
  have "tracked_inv (setCompileTime t (install data s')) = tracked_inv s'" for t data s'
    unfolding tracked_inv_install [of data s', symmetric]
    by (rule tracked_inv_cong) (simp_all add: setCompileTime_def)
  then show ?thesis
    using inv cleared by (simp add: cleanUp_def Let_def split: option.splits)
qed

lemma tracked_inv_reconcile: "tracked_inv (reconcile_target fs t s target) = tracked_inv s"
proof -
  have "tracked_inv (setContent target b (s\<lparr>compileTime := g\<rparr>)) = tracked_inv s" for b g
    unfolding tracked_inv_setContent by (rule tracked_inv_cong) simp_all
  then show ?thesis
    by (simp add: reconcile_target_def Let_def split: option.splits)
qed

lemma tracked_inv_onTargetsBuilt: "tracked_inv (onTargetsBuilt env proj s) = tracked_inv s"
  by (simp add: onTargetsBuilt_def Let_def foldl_preserves [where g = tracked_inv] tracked_inv_reconcile)

lemma tracked_inv_update:
  "tracked_inv (s\<lparr>dirty := d\<rparr>) = tracked_inv s"
  "tracked_inv (s\<lparr>lastEditor := le\<rparr>) = tracked_inv s"
  "tracked_inv (s\<lparr>connections := cs\<rparr>) = tracked_inv s"
  "tracked_inv (s\<lparr>timer := tm\<rparr>) = tracked_inv s"
  "tracked_inv (s\<lparr>deferred := n\<rparr>) = tracked_inv s"
  "tracked_inv (s\<lparr>compileTime := ct\<rparr>) = tracked_inv s"
  by (rule tracked_inv_cong; simp)+

lemma tracked_inv_run_bytes: "tracked_inv s \<Longrightarrow> tracked_inv (run_bytes env b s)"
  by (simp add: run_bytes_def tracked_inv_runImpl)

lemma tracked_inv_run_file: "tracked_inv s \<Longrightarrow> tracked_inv (run_file env f s)"
  by (simp add: run_file_def tracked_inv_runImpl)

lemma tracked_inv_onEditorChanged: "tracked_inv s \<Longrightarrow> tracked_inv (onEditorChanged env editor s)"
  by (simp add: onEditorChanged_def Let_def tracked_inv_update tracked_inv_run_bytes
        split: option.splits)

lemma tracked_inv_onEditorAboutToClose: "tracked_inv s \<Longrightarrow> tracked_inv (onEditorAboutToClose env editor s)"
  by (simp add: onEditorAboutToClose_def Let_def tracked_inv_update tracked_inv_run_bytes)

lemma tracked_inv_setDirty: "tracked_inv (setDirty env s) = tracked_inv s"
  by (rule tracked_inv_cong) (simp_all add: setDirty_def)

lemma tracked_inv_documentContentsChanged: "tracked_inv (documentContentsChanged env doc s) = tracked_inv s"
  by (simp add: documentContentsChanged_eq tracked_inv_setDirty)

lemma tracked_inv_timerEvent: "tracked_inv s \<Longrightarrow> tracked_inv (timerEvent env s)"
  by (simp add: timerEvent_def timeout_lambda_def tracked_inv_update tracked_inv_run_bytes
        split: option.splits)

lemma tracked_inv_deferredRun: "tracked_inv s \<Longrightarrow> tracked_inv (deferredRun env s)"
  by (simp add: deferredRun_def tracked_inv_update tracked_inv_run_file split: nat.splits)

lemma tracked_inv_step: "tracked_inv s \<Longrightarrow> tracked_inv (step env ev s)"
  by (cases ev)
     (simp_all add: tracked_inv_onTargetsBuilt tracked_inv_onEditorChanged
        tracked_inv_onEditorAboutToClose tracked_inv_documentContentsChanged
        tracked_inv_timerEvent tracked_inv_deferredRun tracked_inv_cleanUp watcherFinished_def
        tracked_inv_setContent tracked_inv_run_bytes tracked_inv_run_file
        setCompileTime_def tracked_inv_update)

lemma tracked_inv_exec: "tracked_inv s \<Longrightarrow> tracked_inv (exec history s)"
proof (induction history rule: rev_induct)
  case Nil
  then show ?case by (simp add: exec_Nil)
next
  case (snoc x history)
  obtain env ev where x: "x = (env, ev)" by (cases x)
  show ?case unfolding x exec_snoc using snoc by (simp add: tracked_inv_step)
qed

lemma tracked_inv_scan_target: "tracked_inv (scan_target fs t s target) = tracked_inv s"
  by (simp add: scan_target_def Let_def tracked_inv_setContent tracked_inv_update
        split: option.splits)

lemma tracked_inv_ctor: "tracked_inv (ExtraCompiler_ctor env proj src tgts)"
proof -
  have "tracked_inv (initial proj src tgts)"
    by (simp add: tracked_inv_def initial_def)
  then have "tracked_inv (scan_targets (files env) tgts (initial proj src tgts))"
    unfolding scan_targets_def
    by (simp add: foldl_preserves [where g = tracked_inv] tracked_inv_scan_target)
  then show ?thesis
    by (simp add: ExtraCompiler_ctor_def Let_def tracked_inv_update)
qed

subsection \<open>The target set\<close>

lemma targets_cong: "contents t = contents s \<Longrightarrow> targets t = targets s"
  by (simp add: targets_def)

lemma targets_runImpl: "targets (runImpl env provider s) = targets s"
  by (rule targets_cong) (simp add: runImpl_def Let_def)

lemma targets_run_bytes: "targets (run_bytes env b s) = targets s"
  by (simp add: run_bytes_def targets_runImpl)

lemma targets_run_file: "targets (run_file env f s) = targets s"
  by (simp add: run_file_def targets_runImpl)

lemma targets_update:
  "targets (s\<lparr>dirty := d\<rparr>) = targets s"
  "targets (s\<lparr>lastEditor := le\<rparr>) = targets s"
  "targets (s\<lparr>connections := cs\<rparr>) = targets s"
  "targets (s\<lparr>timer := tm\<rparr>) = targets s"
  "targets (s\<lparr>deferred := n\<rparr>) = targets s"
  "targets (s\<lparr>compileTime := ct\<rparr>) = targets s"
  "targets (s\<lparr>watchers := ws\<rparr>) = targets s"
  "targets (s\<lparr>m_watcher := mw\<rparr>) = targets s"
  by (simp_all add: targets_def)

lemma targets_cleanUp: "targets (cleanUp env s) = targets s"
  by (simp add: cleanUp_def Let_def setCompileTime_def targets_update targets_install
        split: option.splits)

lemma targets_reconcile: "targets (reconcile_target fs t s target) = targets s"
  by (simp add: reconcile_target_def Let_def targets_setContent targets_update
        split: option.splits)

lemma targets_onTargetsBuilt: "targets (onTargetsBuilt env proj s) = targets s"
  by (simp add: onTargetsBuilt_def Let_def foldl_preserves [where g = targets] targets_reconcile)

lemma targets_onEditorChanged: "targets (onEditorChanged env editor s) = targets s"
  by (simp add: onEditorChanged_def Let_def targets_update targets_run_bytes
        split: option.splits)

lemma targets_onEditorAboutToClose: "targets (onEditorAboutToClose env editor s) = targets s"
  by (simp add: onEditorAboutToClose_def Let_def targets_update targets_run_bytes)

lemma targets_documentContentsChanged: "targets (documentContentsChanged env doc s) = targets s"
  by (simp add: documentContentsChanged_eq setDirty_def targets_def)

lemma targets_timerEvent: "targets (timerEvent env s) = targets s"
  by (simp add: timerEvent_def timeout_lambda_def targets_update targets_run_bytes
        split: option.splits)

lemma targets_deferredRun: "targets (deferredRun env s) = targets s"
  by (simp add: deferredRun_def targets_update targets_run_file split: nat.splits)

lemma targets_step: "targets (step env ev s) = targets s"
  by (cases ev)
     (simp_all add: targets_onTargetsBuilt targets_onEditorChanged targets_onEditorAboutToClose
        targets_documentContentsChanged targets_timerEvent targets_deferredRun targets_cleanUp
        watcherFinished_def targets_setContent targets_run_bytes targets_run_file
        setCompileTime_def targets_update)

lemma targets_exec: "targets (exec history s) = targets s"
proof (induction history rule: rev_induct)
  case Nil
  show ?case by (simp add: exec_Nil)
next
  case (snoc x history)
  obtain env ev where x: "x = (env, ev)" by (cases x)
  show ?case unfolding x exec_snoc targets_step by (rule snoc)
qed

lemma hash_keys_inserts:
  "set (hash_keys (foldl (\<lambda>h target. hash_insert target v h) h0 tgts)) = set (hash_keys h0) \<union> set tgts"
  by (induction tgts arbitrary: h0) (auto simp: hash_keys_insert)

lemma distinct_inserts:
  "distinct (hash_keys h0) \<Longrightarrow> distinct (hash_keys (foldl (\<lambda>h target. hash_insert target v h) h0 tgts))"
  by (induction tgts arbitrary: h0) (auto simp: distinct_hash_insert)

lemma targets_initial:
  "set (targets (initial proj src tgts)) = set tgts" "distinct (targets (initial proj src tgts))"
proof -
  have empty: "distinct (hash_keys [])" "set (hash_keys []) = {}"
    by (simp_all add: hash_keys_def)
  show "set (targets (initial proj src tgts)) = set tgts"
    by (simp add: targets_def initial_def hash_keys_inserts empty)
  show "distinct (targets (initial proj src tgts))"
    by (simp add: targets_def initial_def distinct_inserts empty)
qed

lemma targets_scan_target: "targets (scan_target fs t s target) = targets s"
  by (simp add: scan_target_def Let_def targets_setContent targets_update split: option.splits)

lemma targets_scan_targets: "targets (scan_targets fs tgts s) = targets s"
  by (simp add: scan_targets_def foldl_preserves [where g = targets] targets_scan_target)

lemma targets_ctor: "targets (ExtraCompiler_ctor env proj src tgts) = targets (initial proj src tgts)"
  by (simp add: ExtraCompiler_ctor_def Let_def targets_update targets_scan_targets)

lemma undeclared_iff: "(map_of (contents s) file = None) = (file \<notin> set (targets s))"
  by (simp add: targets_def hash_keys_def map_of_eq_None_iff)

subsection \<open>The scan of the constructor\<close>

lemma scan_targets_Nil: "scan_targets fs [] s = s"
  by (simp add: scan_targets_def)

lemma scan_targets_snoc:
  "scan_targets fs (tgts @ [x]) s = scan_target fs (lastModified fs (source s)) (scan_targets fs tgts s) x"
  by (simp add: scan_targets_def)

lemma scan_target_fields:
  "started (scan_target fs st s x) = started s"
  "deferred (scan_target fs st s x) = deferred s"
  "source (scan_target fs st s x) = source s"
  "m_watcher (scan_target fs st s x) = m_watcher s"
  by (simp_all add: scan_target_def Let_def setContent_def split: option.splits)

lemma scan_targets_fields:
  "started (scan_targets fs tgts s) = started s"
  "deferred (scan_targets fs tgts s) = deferred s"
  "source (scan_targets fs tgts s) = source s"
  unfolding scan_targets_def
  by (rule foldl_preserves, simp add: scan_target_fields)+

lemma dirty_setContent: "dirty (setContent f b s) = dirty s"
  by (simp add: setContent_def split: option.splits)

lemma dirty_scan_target:
  "dirty (scan_target fs st s x) = (dirty s \<or> fs x = None \<or> dt_less (lastModified fs x) st)"
  by (auto simp: scan_target_def Let_def lastModified_def dirty_setContent compileTime_setContent
        split: option.splits)

lemma dirty_scan_targets:
  "dirty (scan_targets fs tgts s)
     = (dirty s \<or> (\<exists>t\<in>set tgts. fs t = None \<or> dt_less (lastModified fs t) (lastModified fs (source s))))"
proof (induction tgts rule: rev_induct)
  case Nil
  show ?case by (simp add: scan_targets_Nil)
next
  case (snoc x tgts)
  show ?case unfolding scan_targets_snoc dirty_scan_target snoc by auto
qed

lemma compileTime_scan_target:
  "compileTime (scan_target fs st s x) =
     (case fs x of
        None \<Rightarrow> compileTime s
      | Some fi \<Rightarrow> (case compileTime s of
                     Invalid \<Rightarrow> MSecs (f_lastModified fi)
                   | MSecs c \<Rightarrow> MSecs (min c (f_lastModified fi))))"
  by (auto simp: scan_target_def Let_def compileTime_setContent dt_greater_def min_def
        split: option.splits QDateTime.splits)

lemma contents_setContent:
  "contents (setContent f b s) =
     (case map_of (contents s) f of
        None \<Rightarrow> contents s
      | Some v \<Rightarrow> if qba_eq v b then contents s else hash_assign f b (contents s))"
  by (simp add: setContent_def split: option.splits)

lemma contents_scan_target:
  "contents (scan_target fs st s x) =
     (case open_readAll fs x of None \<Rightarrow> contents s | Some b \<Rightarrow> contents (setContent x b s))"
proof (cases "fs x")
  case None
  then show ?thesis by (simp add: scan_target_def open_readAll_def)
next
  case (Some fi)
  then show ?thesis
    by (simp add: scan_target_def Let_def contents_setContent split: option.splits)
qed

lemma content_scan_target_other:
  "x \<noteq> t \<or> open_readAll fs t = None \<Longrightarrow> content (scan_target fs st s x) t = content s t"
proof -
  assume a: "x \<noteq> t \<or> open_readAll fs t = None"
  have "content (scan_target fs st s x) t =
      (case open_readAll fs x of None \<Rightarrow> content s t | Some b \<Rightarrow> content (setContent x b s) t)"
    by (simp add: content_def contents_scan_target split: option.splits)
  also have "\<dots> = content s t"
  proof (cases "x = t")
    case True
    then show ?thesis using a by simp
  next
    case False
    then show ?thesis by (simp add: content_setContent_other split: option.splits)
  qed
  finally show ?thesis .
qed

lemma declared_scan_target:
  "(map_of (contents (scan_target fs st s x)) k = None) = (map_of (contents s) k = None)"
  by (simp add: scan_target_def Let_def declared_setContent split: option.splits)

lemma declared_scan_targets:
  "(map_of (contents (scan_targets fs tgts s)) k = None) = (map_of (contents s) k = None)"
  unfolding scan_targets_def
  by (rule foldl_preserves [where g = "\<lambda>s. map_of (contents s) k = None"]) (rule declared_scan_target)

lemma content_scan_target_same:
  assumes "open_readAll fs t = Some bytes" and "map_of (contents s) t \<noteq> None"
  shows "qba_eq (content (scan_target fs st s t) t) bytes"
proof -
  obtain old where old: "map_of (contents s) t = Some old"
    using assms(2) by auto
  have "content (scan_target fs st s t) t = content (setContent t bytes s) t"
    using assms(1) by (simp add: content_def contents_scan_target)
  also have "\<dots> = (if qba_eq old bytes then old else bytes)"
    using old by (rule content_setContent_same)
  finally show ?thesis by (simp add: qba_eq_def)
qed

lemma content_scan_targets_unreadable:
  "open_readAll fs t = None \<Longrightarrow> content (scan_targets fs tgts s) t = content s t"
  by (induction tgts rule: rev_induct)
     (simp_all add: scan_targets_Nil scan_targets_snoc content_scan_target_other)

lemma content_scan_targets_readable:
  assumes "open_readAll fs t = Some bytes" and "map_of (contents s) t \<noteq> None" and "t \<in> set tgts"
  shows "qba_eq (content (scan_targets fs tgts s) t) bytes"
  using assms(3)
proof (induction tgts rule: rev_induct)
  case Nil
  then show ?case by simp
next
  case (snoc x tgts)
  show ?case
  proof (cases "x = t")
    case True
    have "map_of (contents (scan_targets fs tgts s)) t \<noteq> None"
      using assms(2) by (simp add: declared_scan_targets)
    then show ?thesis
      unfolding scan_targets_snoc True by (rule content_scan_target_same [OF assms(1)])
  next
    case False
    then have "t \<in> set tgts" using snoc.prems by simp
    then show ?thesis
      unfolding scan_targets_snoc using False by (simp add: content_scan_target_other snoc.IH)
  qed
qed

lemma compileTime_scan_targets_Invalid:
  "(compileTime (scan_targets fs tgts s) = Invalid)
     = (compileTime s = Invalid \<and> (\<forall>t\<in>set tgts. fs t = None))"
proof (induction tgts rule: rev_induct)
  case Nil
  show ?case by (simp add: scan_targets_Nil)
next
  case (snoc x tgts)
  show ?case
    unfolding scan_targets_snoc compileTime_scan_target
    using snoc by (auto split: option.splits QDateTime.splits)
qed

lemma compileTime_scan_targets_least:
  "compileTime (scan_targets fs tgts s) = MSecs m \<Longrightarrow>
   (compileTime s = MSecs m \<or> (\<exists>t\<in>set tgts. lastModified fs t = MSecs m))
   \<and> (\<forall>c. compileTime s = MSecs c \<longrightarrow> m \<le> c)
   \<and> (\<forall>t\<in>set tgts. \<forall>m'. lastModified fs t = MSecs m' \<longrightarrow> m \<le> m')"
proof (induction tgts arbitrary: m rule: rev_induct)
  case Nil
  then show ?case by (simp add: scan_targets_Nil)
next
  case (snoc x tgts)
  show ?case
  proof (cases "fs x")
    case None
    then have "compileTime (scan_targets fs tgts s) = MSecs m"
      using snoc.prems by (simp add: scan_targets_snoc compileTime_scan_target)
    from snoc.IH [OF this]
    have A: "compileTime s = MSecs m \<or> (\<exists>t\<in>set tgts. lastModified fs t = MSecs m)"
      and B: "\<forall>c. compileTime s = MSecs c \<longrightarrow> m \<le> c"
      and C: "\<forall>t\<in>set tgts. \<forall>m'. lastModified fs t = MSecs m' \<longrightarrow> m \<le> m'"
      by blast+
    have lx: "lastModified fs x = Invalid"
      using None by (simp add: lastModified_def)
    have A': "compileTime s = MSecs m \<or> (\<exists>t\<in>set (tgts @ [x]). lastModified fs t = MSecs m)"
      using A by auto
    have C': "\<forall>t\<in>set (tgts @ [x]). \<forall>m'. lastModified fs t = MSecs m' \<longrightarrow> m \<le> m'"
      using C lx by simp
    show ?thesis using A' B C' by blast
  next
    case (Some fi)
    have lx: "lastModified fs x = MSecs (f_lastModified fi)"
      using Some by (simp add: lastModified_def)
    show ?thesis
    proof (cases "compileTime (scan_targets fs tgts s)")
      case Invalid
      then have m: "f_lastModified fi = m"
        using snoc.prems Some by (simp add: scan_targets_snoc compileTime_scan_target)
      have inv: "compileTime s = Invalid" and none: "\<forall>t\<in>set tgts. fs t = None"
        using Invalid by (simp_all add: compileTime_scan_targets_Invalid)
      have none': "\<forall>t\<in>set tgts. lastModified fs t = Invalid"
        using none by (simp add: lastModified_def)
      have A': "compileTime s = MSecs m \<or> (\<exists>t\<in>set (tgts @ [x]). lastModified fs t = MSecs m)"
        using lx m by simp
      have B': "\<forall>c. compileTime s = MSecs c \<longrightarrow> m \<le> c"
        using inv by simp
      have C': "\<forall>t\<in>set (tgts @ [x]). \<forall>m'. lastModified fs t = MSecs m' \<longrightarrow> m \<le> m'"
        using none' lx m by simp
      show ?thesis using A' B' C' by blast
    next
      case (MSecs c)
      then have m: "min c (f_lastModified fi) = m"
        using snoc.prems Some by (simp add: scan_targets_snoc compileTime_scan_target)
      from snoc.IH [OF MSecs]
      have A: "compileTime s = MSecs c \<or> (\<exists>t\<in>set tgts. lastModified fs t = MSecs c)"
        and B: "\<forall>c'. compileTime s = MSecs c' \<longrightarrow> c \<le> c'"
        and C: "\<forall>t\<in>set tgts. \<forall>m'. lastModified fs t = MSecs m' \<longrightarrow> c \<le> m'"
        by blast+
      have mc: "m \<le> c" and mx: "m \<le> f_lastModified fi"
        and either: "m = c \<or> m = f_lastModified fi"
        using m by (simp_all add: min_def split: if_splits)
      have A': "compileTime s = MSecs m \<or> (\<exists>t\<in>set (tgts @ [x]). lastModified fs t = MSecs m)"
      proof (cases "m = c")
        case True
        then show ?thesis using A by auto
      next
        case False
        then have "lastModified fs x = MSecs m" using either lx by simp
        then show ?thesis by simp
      qed
      have B': "\<forall>c'. compileTime s = MSecs c' \<longrightarrow> m \<le> c'"
        using B mc by (meson order_trans)
      have C': "\<forall>t\<in>set (tgts @ [x]). \<forall>m'. lastModified fs t = MSecs m' \<longrightarrow> m \<le> m'"
      proof (intro ballI allI impI)
        fix t m' assume t: "t \<in> set (tgts @ [x])" and l: "lastModified fs t = MSecs m'"
        show "m \<le> m'"
        proof (cases "t = x")
          case True
          then show ?thesis using l lx mx by simp
        next
          case False
          then have "t \<in> set tgts" using t by simp
          then have "c \<le> m'" using C l by blast
          then show ?thesis using mc by simp
        qed
      qed
      show ?thesis using A' B' C' by blast
    qed
  qed
qed

lemma map_of_hash_insert:
  "map_of (hash_insert k v h) k' = (if k' = k then Some v else map_of h k')"
  by (induction h) auto

lemma map_of_inserts:
  "map_of (foldl (\<lambda>h target. hash_insert target v h) h0 tgts) k
     = (if k \<in> set tgts then Some v else map_of h0 k)"
  by (induction tgts arbitrary: h0) (auto simp: map_of_hash_insert)

lemma map_of_initial:
  "map_of (contents (initial proj src tgts)) t = (if t \<in> set tgts then Some Null else None)"
  by (simp add: initial_def map_of_inserts)

lemma content_initial: "content (initial proj src tgts) t = Null"
  by (simp add: content_def hash_value_def map_of_initial)

lemma initial_fields:
  "dirty (initial proj src tgts) = False"
  "compileTime (initial proj src tgts) = Invalid"
  "source (initial proj src tgts) = src"
  "started (initial proj src tgts) = []"
  "deferred (initial proj src tgts) = 0"
  "m_watcher (initial proj src tgts) = None"
  by (simp_all add: initial_def)

lemma m_watcher_scan_targets: "m_watcher (scan_targets fs tgts s) = m_watcher s"
  unfolding scan_targets_def
  by (rule foldl_preserves) (simp add: scan_target_fields)

subsection \<open>Which events start a run\<close>













subsection \<open>Time stamps and reconciliation\<close>

lemma dt_less_irrefl: "\<not> dt_less a a"
  by (cases a) simp_all

lemma dt_less_Invalid: "\<not> dt_less a Invalid"
  by (cases a) simp_all

lemma dt_less_trans: "dt_less a b \<Longrightarrow> dt_less b c \<Longrightarrow> dt_less a c"
  by (cases a; cases b; cases c) simp_all

lemma dt_less_total: "dt_less a b \<or> a = b \<or> dt_less b a"
  by (cases a; cases b) auto

lemma dt_ge_refl: "dt_ge a a"
  by (simp add: dt_ge_def dt_less_irrefl)

lemma dt_ge_trans: "dt_ge a b \<Longrightarrow> dt_ge b c \<Longrightarrow> dt_ge a c"
  unfolding dt_ge_def using dt_less_trans dt_less_total by metis

lemma reconcile_target_skip:
  "dt_ge (compileTime t) (lastModified fs x) \<or> \<not> dt_greater (lastModified fs x) st
   \<or> open_readAll fs x = None \<Longrightarrow> reconcile_target fs st t x = t"
  by (auto simp: reconcile_target_def Let_def)

lemma reconcile_target_adopt:
  "lastModified fs x = MSecs g \<Longrightarrow> dt_greater (MSecs g) st \<Longrightarrow> \<not> dt_ge (compileTime t) (MSecs g) \<Longrightarrow>
   open_readAll fs x = Some bytes \<Longrightarrow>
   reconcile_target fs st t x = setContent x bytes (t\<lparr>compileTime := MSecs g\<rparr>)"
  by (simp add: reconcile_target_def Let_def)

lemma compileTime_reconcile_target:
  "compileTime (reconcile_target fs st t x) =
     (if isValid (lastModified fs x) \<and> dt_greater (lastModified fs x) st
         \<and> \<not> dt_ge (compileTime t) (lastModified fs x) \<and> open_readAll fs x \<noteq> None
      then lastModified fs x else compileTime t)"
  by (auto simp: reconcile_target_def Let_def compileTime_setContent)

lemma compileTime_reconcile_mono: "dt_ge (compileTime (reconcile_target fs st t x)) (compileTime t)"
  unfolding compileTime_reconcile_target
  using dt_less_trans dt_less_irrefl by (auto simp: dt_ge_def dt_ge_refl)

lemma compileTime_reconcile_fold_mono:
  "dt_ge (compileTime (foldl (reconcile_target fs st) t xs)) (compileTime t)"
proof (induction xs rule: rev_induct)
  case Nil
  show ?case by (simp add: dt_ge_refl)
next
  case (snoc x xs)
  have "dt_ge (compileTime (reconcile_target fs st (foldl (reconcile_target fs st) t xs) x))
          (compileTime (foldl (reconcile_target fs st) t xs))"
    by (rule compileTime_reconcile_mono)
  then show ?case using snoc dt_ge_trans by auto
qed

lemma compileTime_reconcile_covers:
  "dt_greater (lastModified fs x) st \<Longrightarrow> open_readAll fs x \<noteq> None \<Longrightarrow>
   dt_ge (compileTime (reconcile_target fs st t x)) (lastModified fs x)"
  unfolding compileTime_reconcile_target
  by (cases "lastModified fs x") (auto simp: dt_ge_def dt_less_irrefl dt_less_Invalid)

lemma compileTime_reconcile_fold_covers:
  "x \<in> set xs \<Longrightarrow> dt_greater (lastModified fs x) st \<Longrightarrow> open_readAll fs x \<noteq> None \<Longrightarrow>
   dt_ge (compileTime (foldl (reconcile_target fs st) t xs)) (lastModified fs x)"
proof (induction xs arbitrary: t)
  case Nil
  then show ?case by simp
next
  case (Cons y xs)
  show ?case
  proof (cases "x = y")
    case True
    have a: "dt_ge (compileTime (reconcile_target fs st t y)) (lastModified fs x)"
      unfolding True [symmetric] by (rule compileTime_reconcile_covers) (use Cons.prems in simp_all)
    have b: "dt_ge (compileTime (foldl (reconcile_target fs st) (reconcile_target fs st t y) xs))
               (compileTime (reconcile_target fs st t y))"
      by (rule compileTime_reconcile_fold_mono)
    show ?thesis using dt_ge_trans [OF b a] by simp
  next
    case False
    then have "x \<in> set xs" using Cons.prems by simp
    then show ?thesis using Cons.IH Cons.prems by simp
  qed
qed

text \<open>
  What \<^verbatim>\<open>onTargetsBuilt\<close> does: nothing for another project, while the project is
  building, or when the watermark is valid and not older than the source; otherwise one
  pass over the targets in the order of the hash, each visit with the watermark that the
  visits before it have left.
\<close>

lemma onTargetsBuilt_pass:
  assumes fs: "fs = files env"
    and st: "st = lastModified fs (source s)"
  shows "(proj \<noteq> project s \<or> isBuilding env proj
            \<or> (isValid (compileTime s) \<and> dt_ge (compileTime s) st) \<longrightarrow>
           onTargetsBuilt env proj s = s)
       \<and> (proj = project s \<and> \<not> isBuilding env proj
            \<and> \<not> (isValid (compileTime s) \<and> dt_ge (compileTime s) st) \<longrightarrow>
           onTargetsBuilt env proj s = foldl (reconcile_target fs st) s (targets s)
         \<and> (\<forall>x\<in>set (targets s).
               dt_greater (lastModified fs x) st \<and> open_readAll fs x \<noteq> None \<longrightarrow>
               dt_ge (compileTime (onTargetsBuilt env proj s)) (lastModified fs x)))
       \<and> (\<forall>t x g bytes.
             lastModified fs x = MSecs g \<and> dt_greater (MSecs g) st
             \<and> dt_less (compileTime t) (MSecs g) \<and> open_readAll fs x = Some bytes \<longrightarrow>
               reconcile_target fs st t x = setContent x bytes (t\<lparr>compileTime := MSecs g\<rparr>)
             \<and> compileTime (reconcile_target fs st t x) = MSecs g
             \<and> (x \<in> set (targets t) \<longrightarrow> qba_eq (content (reconcile_target fs st t x) x) bytes)
             \<and> (\<forall>y. y \<noteq> x \<longrightarrow> content (reconcile_target fs st t x) y = content t y))
       \<and> (\<forall>t x. dt_ge (compileTime t) (lastModified fs x)
                  \<or> \<not> dt_greater (lastModified fs x) st
                  \<or> open_readAll fs x = None \<longrightarrow>
               reconcile_target fs st t x = t)"
proof -
  have guard: "onTargetsBuilt env proj s = s"
    if "proj \<noteq> project s \<or> isBuilding env proj \<or> (isValid (compileTime s) \<and> dt_ge (compileTime s) st)"
    using that by (auto simp: onTargetsBuilt_def Let_def fs st)
  have pass: "onTargetsBuilt env proj s = foldl (reconcile_target fs st) s (targets s)"
    if "proj = project s \<and> \<not> isBuilding env proj \<and> \<not> (isValid (compileTime s) \<and> dt_ge (compileTime s) st)"
    using that by (auto simp: onTargetsBuilt_def Let_def fs st)
  have covers: "dt_ge (compileTime (onTargetsBuilt env proj s)) (lastModified fs x)"
    if "proj = project s \<and> \<not> isBuilding env proj \<and> \<not> (isValid (compileTime s) \<and> dt_ge (compileTime s) st)"
      and "x \<in> set (targets s)" and "dt_greater (lastModified fs x) st \<and> open_readAll fs x \<noteq> None" for x
    unfolding pass [OF that(1)]
    using that(2,3) by (simp add: compileTime_reconcile_fold_covers)
  have adopt: "reconcile_target fs st t x = setContent x bytes (t\<lparr>compileTime := MSecs g\<rparr>)
             \<and> compileTime (reconcile_target fs st t x) = MSecs g
             \<and> (x \<in> set (targets t) \<longrightarrow> qba_eq (content (reconcile_target fs st t x) x) bytes)
             \<and> (\<forall>y. y \<noteq> x \<longrightarrow> content (reconcile_target fs st t x) y = content t y)"
    if "lastModified fs x = MSecs g \<and> dt_greater (MSecs g) st
        \<and> dt_less (compileTime t) (MSecs g) \<and> open_readAll fs x = Some bytes" for t x g bytes
  proof -
    have eq: "reconcile_target fs st t x = setContent x bytes (t\<lparr>compileTime := MSecs g\<rparr>)"
      using that by (simp add: reconcile_target_adopt dt_ge_def)
    have wm: "compileTime (reconcile_target fs st t x) = MSecs g"
      unfolding eq by (simp add: compileTime_setContent)
    have cached: "qba_eq (content (reconcile_target fs st t x) x) bytes" if "x \<in> set (targets t)"
    proof -
      have "map_of (contents t) x \<noteq> None"
        using \<open>x \<in> set (targets t)\<close> by (simp add: undeclared_iff)
      then obtain old where old: "map_of (contents (t\<lparr>compileTime := MSecs g\<rparr>)) x = Some old"
        by auto
      show ?thesis
        unfolding eq content_setContent_same [OF old] by (simp add: qba_eq_def)
    qed
    have others: "content (reconcile_target fs st t x) y = content t y" if "y \<noteq> x" for y
      unfolding eq using that by (simp add: content_setContent_other) (simp add: content_def)
    show ?thesis using eq wm cached others by blast
  qed
  have skip: "reconcile_target fs st t x = t"
    if "dt_ge (compileTime t) (lastModified fs x) \<or> \<not> dt_greater (lastModified fs x) st
        \<or> open_readAll fs x = None" for t x
    using that by (rule reconcile_target_skip)
  show ?thesis
    using guard pass covers adopt skip by (intro conjI allI impI ballI) blast+
qed

section \<open>Claims\<close>

text \<open>
  C5. For a declared target, \<^verbatim>\<open>setContent\<close> replaces the cached bytes and emits
  \<^verbatim>\<open>contentsChanged\<close> for that target exactly when the new bytes differ from the cached
  ones (otherwise the object is unchanged); no other target's content changes. Calling it
  a second time with the same bytes changes nothing more: the cache equals the input and
  at most one notification was emitted by the two calls.
\<close>

theorem setContent_change_detecting:
  assumes declared: "map_of (contents s) file = Some old"
  shows "(\<not> qba_eq old bytes \<longrightarrow>
            content (setContent file bytes s) file = bytes
          \<and> emitted (setContent file bytes s) = emitted s @ [file])
       \<and> (qba_eq old bytes \<longrightarrow> setContent file bytes s = s)
       \<and> (\<forall>other. other \<noteq> file \<longrightarrow> content (setContent file bytes s) other = content s other)
       \<and> setContent file bytes (setContent file bytes s) = setContent file bytes s
       \<and> qba_eq (content (setContent file bytes (setContent file bytes s)) file) bytes
       \<and> length (emitted (setContent file bytes (setContent file bytes s))) \<le> Suc (length (emitted s))"
proof -
  have again: "setContent file bytes (setContent file bytes s) = setContent file bytes s"
    using declared by (simp add: setContent_def map_of_hash_assign qba_eq_def)
  have same: "content (setContent file bytes s) file = (if qba_eq old bytes then old else bytes)"
    using declared by (rule content_setContent_same)
  have differ: "\<not> qba_eq old bytes \<longrightarrow> emitted (setContent file bytes s) = emitted s @ [file]"
    using declared by (simp add: setContent_def)
  have equal: "qba_eq old bytes \<longrightarrow> setContent file bytes s = s"
    using declared by (simp add: setContent_def)
  have others: "\<forall>other. other \<noteq> file \<longrightarrow> content (setContent file bytes s) other = content s other"
    by (simp add: content_setContent_other)
  have cached: "qba_eq (content (setContent file bytes s) file) bytes"
    unfolding same by (simp add: qba_eq_def)
  have once: "length (emitted (setContent file bytes s)) \<le> Suc (length (emitted s))"
    using declared by (simp add: setContent_def)
  show ?thesis
    unfolding again using same differ equal others cached once by simp
qed

theorem setContent_change_detecting_witness:
  "map_of (contents (initial 0 ''a.ui'' [''ui_a.h''])) ''ui_a.h'' = Some Null
   \<and> content (setContent ''ui_a.h'' (Bytes ''X'') (initial 0 ''a.ui'' [''ui_a.h''])) ''ui_a.h''
       = Bytes ''X''
   \<and> emitted (setContent ''ui_a.h'' (Bytes ''X'')
                (setContent ''ui_a.h'' (Bytes ''X'') (initial 0 ''a.ui'' [''ui_a.h''])))
       = [''ui_a.h'']"
  using setContent_change_detecting
          [of "initial 0 ''a.ui'' [''ui_a.h'']" "''ui_a.h''" Null "Bytes ''X''"]
  by (simp add: initial_def qba_eq_def)

text \<open>
C2. When the run that is tracked completes: if its future reported no result, or an
  empty hash, the cached contents, the watermark and the notifications are as before.
  If it reported a non-empty hash, the contents are those after \<^verbatim>\<open>setContent\<close> was
  called for every entry of the hash, and the watermark is the current time. So a target
  that is not in the hash keeps its content, and a declared target that is in the hash
  holds the reported bytes.
\<close>

theorem cleanUp_fail_soft:
  assumes tracked: "m_watcher s = Some w"
  shows "(futureResult env w = None \<or> futureResult env w = Some [] \<longrightarrow>
            contents (cleanUp env s) = contents s
          \<and> compileTime (cleanUp env s) = compileTime s
          \<and> emitted (cleanUp env s) = emitted s)
       \<and> (\<forall>data. futureResult env w = Some data \<and> data \<noteq> [] \<longrightarrow>
            contents (cleanUp env s) = contents (install data s)
          \<and> emitted (cleanUp env s) = emitted (install data s)
          \<and> compileTime (cleanUp env s) = MSecs (currentDateTime env)
          \<and> (\<forall>k. k \<notin> set (hash_keys data) \<longrightarrow> content (cleanUp env s) k = content s k)
          \<and> (distinct (hash_keys data) \<longrightarrow>
               (\<forall>k v. (k, v) \<in> set data \<and> map_of (contents s) k \<noteq> None \<longrightarrow>
                      qba_eq (content (cleanUp env s) k) v)))"
proof -
  have none: "futureResult env w = None \<or> futureResult env w = Some [] \<Longrightarrow>
      cleanUp env s = s\<lparr>watchers := removeAll w (watchers s), m_watcher := None\<rparr>"
    using tracked by (auto simp: cleanUp_def)
  have some: "cleanUp env s =
      (install data s)\<lparr>watchers := removeAll w (watchers s), m_watcher := None,
                        compileTime := MSecs (currentDateTime env)\<rparr>"
    if "futureResult env w = Some data" "data \<noteq> []" for data
    using tracked that by (simp add: cleanUp_def setCompileTime_def install_watcher_frame)
  have part1: "futureResult env w = None \<or> futureResult env w = Some [] \<longrightarrow>
            contents (cleanUp env s) = contents s
          \<and> compileTime (cleanUp env s) = compileTime s
          \<and> emitted (cleanUp env s) = emitted s"
    using none by auto
  have part2: "contents (cleanUp env s) = contents (install data s)
          \<and> emitted (cleanUp env s) = emitted (install data s)
          \<and> compileTime (cleanUp env s) = MSecs (currentDateTime env)
          \<and> (\<forall>k. k \<notin> set (hash_keys data) \<longrightarrow> content (cleanUp env s) k = content s k)
          \<and> (distinct (hash_keys data) \<longrightarrow>
               (\<forall>k v. (k, v) \<in> set data \<and> map_of (contents s) k \<noteq> None \<longrightarrow>
                      qba_eq (content (cleanUp env s) k) v))"
    if "futureResult env w = Some data" "data \<noteq> []" for data
  proof -
    have c: "content (cleanUp env s) k = content (install data s) k" for k
      unfolding some [OF that] by (simp add: content_def)
    show ?thesis
      unfolding c using content_install_present [of data _ _ s]
      by (simp add: some [OF that] content_install_absent)
  qed
  show ?thesis using part1 part2 by blast
qed

theorem cleanUp_fail_soft_witness:
  "m_watcher (run_file example_ide ''a.ui'' (initial 0 ''a.ui'' [''ui_a.h''])) = Some 0
   \<and> content (cleanUp (example_ide\<lparr>futureResult := (\<lambda>w. Some [(''ui_a.h'', Bytes ''new'')])\<rparr>)
                (run_file example_ide ''a.ui'' (initial 0 ''a.ui'' [''ui_a.h'']))) ''ui_a.h'' = Bytes ''new''
   \<and> compileTime (cleanUp (example_ide\<lparr>futureResult := (\<lambda>w. Some [(''ui_a.h'', Bytes ''new'')])\<rparr>)
                (run_file example_ide ''a.ui'' (initial 0 ''a.ui'' [''ui_a.h'']))) = MSecs 20
   \<and> compileTime (cleanUp example_ide
                (run_file example_ide ''a.ui'' (initial 0 ''a.ui'' [''ui_a.h'']))) = Invalid"
  using cleanUp_fail_soft [of "run_file example_ide ''a.ui'' (initial 0 ''a.ui'' [''ui_a.h''])" 0
           "example_ide\<lparr>futureResult := (\<lambda>w. Some [(''ui_a.h'', Bytes ''new'')])\<rparr>"]
        cleanUp_fail_soft [of "run_file example_ide ''a.ui'' (initial 0 ''a.ui'' [''ui_a.h''])" 0
           "example_ide"]
  by (simp add: run_file_def runImpl_def initial_def example_ide_def install_def setContent_def
        content_def hash_value_def qba_eq_def hash_keys_def)

text \<open>
  C8. A worker whose command path is empty or not executable, whose content provider
  yields a null array, or whose \<^verbatim>\<open>prepareToRun\<close> returns false, returns without
  starting a process and without reporting a result. When the completion of that run
  reaches the instance, the cached contents, the watermark and the notifications are as
  before.
\<close>

theorem runInThread_abort_before_spawn:
  assumes abort: "j_cmd j = [] \<or> \<not> isExecutable fs (j_cmd j)
                  \<or> isNull (provide fs (j_provider j))
                  \<or> \<not> prepareToRun (provide fs (j_provider j))"
  shows "runInThread fs prepareToRun proc j = Some no_spawn
       \<and> \<not> t_spawned no_spawn
       \<and> t_reported no_spawn = None
       \<and> (m_watcher s = Some (j_watcher j) \<and> futureResult env (j_watcher j) = t_reported no_spawn \<longrightarrow>
            contents (watcherFinished env (j_watcher j) s) = contents s
          \<and> compileTime (watcherFinished env (j_watcher j) s) = compileTime s
          \<and> emitted (watcherFinished env (j_watcher j) s) = emitted s)"
proof -
  have "runInThread fs prepareToRun proc j = Some no_spawn"
    using abort by (rule runInThread_aborts)
  moreover have "\<not> t_spawned no_spawn" and none: "t_reported no_spawn = None"
    by (simp_all add: no_spawn_def)
  moreover have "m_watcher s = Some (j_watcher j) \<and> futureResult env (j_watcher j) = t_reported no_spawn \<longrightarrow>
            contents (watcherFinished env (j_watcher j) s) = contents s
          \<and> compileTime (watcherFinished env (j_watcher j) s) = compileTime s
          \<and> emitted (watcherFinished env (j_watcher j) s) = emitted s"
    unfolding none using watcherFinished_no_result [of env "j_watcher j" s] by blast
  ultimately show ?thesis by blast
qed

theorem runInThread_abort_before_spawn_witness:
  "\<not> isExecutable example_files ''moc''
   \<and> runInThread example_files (\<lambda>b. True) example_process
        (last (started (run_bytes (example_ide\<lparr>command := ''moc''\<rparr>) (Bytes ''edited'')
                         (initial 0 ''a.ui'' [''ui_a.h''])))) = Some no_spawn
   \<and> contents (watcherFinished example_ide 0
        (run_bytes (example_ide\<lparr>command := ''moc''\<rparr>) (Bytes ''edited'')
           (initial 0 ''a.ui'' [''ui_a.h''])))
      = [(''ui_a.h'', Null)]"
  using runInThread_abort_before_spawn
     [where j = "last (started (run_bytes (example_ide\<lparr>command := ''moc''\<rparr>) (Bytes ''edited'')
                         (initial 0 ''a.ui'' [''ui_a.h''])))" and fs = example_files
        and prepareToRun = "\<lambda>b. True" and proc = example_process and env = example_ide
        and s = "run_bytes (example_ide\<lparr>command := ''moc''\<rparr>) (Bytes ''edited'')
                         (initial 0 ''a.ui'' [''ui_a.h''])"]
  by (simp add: run_bytes_def runImpl_def initial_def example_ide_def example_files_def
        isExecutable_def no_spawn_def)

text \<open>
  C10. A run started through \<^verbatim>\<open>run(fileName)\<close> carries a provider that reads the file
  on the worker thread. If the file cannot be opened then, the provider yields a null
  array, the worker returns without starting a process and without a result, and the
  completion of the run leaves the cached contents, the watermark and the notifications
  as they were before the run was started.
\<close>

theorem run_file_unreadable_source:
  assumes unreadable: "open_readAll fs fileName = None"
  shows "started (run_file env fileName s) = started s @ [last (started (run_file env fileName s))]
       \<and> j_provider (last (started (run_file env fileName s))) = FromFile fileName
       \<and> m_watcher (run_file env fileName s) = Some (j_watcher (last (started (run_file env fileName s))))
       \<and> provide fs (FromFile fileName) = Null
       \<and> runInThread fs prepareToRun proc (last (started (run_file env fileName s))) = Some no_spawn
       \<and> \<not> t_spawned no_spawn
       \<and> t_reported no_spawn = None
       \<and> (futureResult env' (j_watcher (last (started (run_file env fileName s)))) = t_reported no_spawn \<longrightarrow>
            contents (watcherFinished env' (j_watcher (last (started (run_file env fileName s))))
                        (run_file env fileName s)) = contents s
          \<and> compileTime (watcherFinished env' (j_watcher (last (started (run_file env fileName s))))
                        (run_file env fileName s)) = compileTime s
          \<and> emitted (watcherFinished env' (j_watcher (last (started (run_file env fileName s))))
                        (run_file env fileName s)) = emitted s)"
proof -
  let ?s = "run_file env fileName s"
  let ?j = "last (started ?s)"
  have null: "provide fs (FromFile fileName) = Null"
    using unreadable by simp
  have st: "started ?s = started s @ [?j]"
    and prov: "j_provider ?j = FromFile fileName"
    and mw: "m_watcher ?s = Some (j_watcher ?j)"
    by (simp_all add: run_file_def runImpl_def Let_def)
  have frame: "contents ?s = contents s" "compileTime ?s = compileTime s" "emitted ?s = emitted s"
    by (simp_all add: run_file_def runImpl_def Let_def)
  have abort: "runInThread fs prepareToRun proc ?j = Some no_spawn"
    by (rule runInThread_aborts) (simp add: prov null del: provide.simps)
  have none: "t_reported no_spawn = None" and nsp: "\<not> t_spawned no_spawn"
    by (simp_all add: no_spawn_def)
  have fin: "futureResult env' (j_watcher ?j) = t_reported no_spawn \<longrightarrow>
            contents (watcherFinished env' (j_watcher ?j) ?s) = contents s
          \<and> compileTime (watcherFinished env' (j_watcher ?j) ?s) = compileTime s
          \<and> emitted (watcherFinished env' (j_watcher ?j) ?s) = emitted s"
    unfolding none using watcherFinished_no_result [OF _ mw, of env'] frame by simp
  show ?thesis using st prov mw null abort none nsp fin by blast
qed

theorem run_file_unreadable_source_witness:
  "open_readAll example_files ''b.ui'' = None
   \<and> runInThread example_files (\<lambda>b. True) example_process
        (last (started (run_file example_ide ''b.ui'' (initial 0 ''b.ui'' [''ui_b.h''])))) = Some no_spawn
   \<and> contents (watcherFinished example_ide 0
        (run_file example_ide ''b.ui'' (initial 0 ''b.ui'' [''ui_b.h''])))
      = [(''ui_b.h'', Null)]"
  using run_file_unreadable_source
     [where fs = example_files and fileName = "''b.ui''" and env = example_ide
        and s = "initial 0 ''b.ui'' [''ui_b.h'']" and prepareToRun = "\<lambda>b. True"
        and proc = example_process and env' = example_ide]
  by (simp add: run_file_def runImpl_def initial_def example_ide_def example_files_def
        open_readAll_def no_spawn_def)

text \<open>
  C7. An instance that is bound to an editor and whose dirty flag is set, when the current
  editor changes to none or to an editor of another file, or when the bound editor is
  about to close: it clears the dirty flag, calls \<^verbatim>\<open>run\<close> with the present contents of
  the bound editor's document while \<^verbatim>\<open>lastEditor\<close> still points to that editor, and
  only then clears \<^verbatim>\<open>lastEditor\<close>. If the dirty flag is not set, no run is started and
  the tracked watcher is as before. Either way the instance ends unbound and not dirty.
\<close>

theorem detach_runs_pending_edit:
  assumes bound: "lastEditor s = Some le"
    and away: "editor = None \<or> (\<exists>e. editor = Some e \<and> documentFilePath env (editorDocument env e) \<noteq> source s)"
    and h: "h = onEditorChanged env editor \<or> h = onEditorAboutToClose env le"
    and s1: "s1 = s\<lparr>connections := removeAll (editorDocument env le) (connections s), dirty := False\<rparr>"
    and b: "b = documentContents env (editorDocument env le)"
  shows "(dirty s \<longrightarrow> h s = (run_bytes env b s1)\<lparr>lastEditor := None\<rparr>
                      \<and> lastEditor s1 = Some le
                      \<and> map j_provider (started (h s)) = map j_provider (started s) @ [Literal b])
       \<and> (\<not> dirty s \<longrightarrow> started (h s) = started s \<and> m_watcher (h s) = m_watcher s)
       \<and> \<not> dirty (h s)
       \<and> lastEditor (h s) = None"
proof -
  have changed_dirty: "dirty s \<Longrightarrow> onEditorChanged env editor s = (run_bytes env b s1)\<lparr>lastEditor := None\<rparr>"
    using bound away by (auto simp: onEditorChanged_def Let_def s1 b run_bytes_fields)
  have changed_clean: "\<not> dirty s \<Longrightarrow> onEditorChanged env editor s = s1\<lparr>lastEditor := None\<rparr>"
    using bound away by (auto simp: onEditorChanged_def Let_def s1 b)
  have close_dirty: "dirty s \<Longrightarrow> onEditorAboutToClose env le s = (run_bytes env b s1)\<lparr>lastEditor := None\<rparr>"
    using bound by (simp add: onEditorAboutToClose_def Let_def s1 b)
  have close_clean: "\<not> dirty s \<Longrightarrow> onEditorAboutToClose env le s = s1\<lparr>lastEditor := None\<rparr>"
    using bound by (simp add: onEditorAboutToClose_def Let_def s1 b)
  have d: "dirty s \<Longrightarrow> h s = (run_bytes env b s1)\<lparr>lastEditor := None\<rparr>"
    using h changed_dirty close_dirty by auto
  have c: "\<not> dirty s \<Longrightarrow> h s = s1\<lparr>lastEditor := None\<rparr>"
    using h changed_clean close_clean by auto
  have le1: "lastEditor s1 = Some le" and st1: "started s1 = started s"
    and mw1: "m_watcher s1 = m_watcher s" and d1: "\<not> dirty s1"
    using bound by (simp_all add: s1)
  show ?thesis
  proof (cases "dirty s")
    case True
    show ?thesis using True le1 st1 d1 by (simp add: d [OF True] run_bytes_fields)
  next
    case False
    show ?thesis using False st1 mw1 d1 by (simp add: c [OF False])
  qed
qed

theorem detach_runs_pending_edit_witness:
  "lastEditor (setDirty example_ide (onEditorChanged example_ide (Some 0) (initial 0 ''a.ui'' [''ui_a.h'']))) = Some 0
   \<and> map j_provider (started (onEditorChanged example_ide (Some 1)
        (setDirty example_ide (onEditorChanged example_ide (Some 0) (initial 0 ''a.ui'' [''ui_a.h''])))))
      = [Literal (Bytes ''edited'')]
   \<and> lastEditor (onEditorChanged example_ide (Some 1)
        (setDirty example_ide (onEditorChanged example_ide (Some 0) (initial 0 ''a.ui'' [''ui_a.h''])))) = None"
  using detach_runs_pending_edit
     [where s = "setDirty example_ide (onEditorChanged example_ide (Some 0) (initial 0 ''a.ui'' [''ui_a.h'']))"
        and le = 0 and editor = "Some 1" and env = example_ide
        and h = "onEditorChanged example_ide (Some 1)", OF _ _ _ refl refl]
  by (simp add: setDirty_def onEditorChanged_def initial_def example_ide_def Let_def
        run_bytes_def runImpl_def)




text \<open>
  C1. In every state that an instance reaches from its construction, at most one watcher
  object is alive: the tracked one, and it belongs to the job that was started last; the
  jobs started so far have pairwise different watchers. Starting a run deletes the
  tracked watcher and tracks a new one. The completion of any run but the tracked one
  does not reach the instance, so it changes nothing, also when it arrives after a newer
  run was started; the completion of the tracked run is handled by \<^verbatim>\<open>cleanUp\<close>. The
  destructor cancels the tracked run and waits for it to finish, and does nothing when no
  run is tracked.
\<close>

theorem one_tracked_run:
  assumes reached: "s = exec history (ExtraCompiler_ctor env0 proj src tgts)"
  shows "((m_watcher s = None \<and> watchers s = [])
          \<or> (\<exists>w. m_watcher s = Some w \<and> watchers s = [w] \<and> started s \<noteq> []
                   \<and> j_watcher (last (started s)) = w))
       \<and> distinct (map j_watcher (started s))
       \<and> (\<forall>env provider.
             m_watcher (runImpl env provider s) = Some (nextWatcher s)
           \<and> watchers (runImpl env provider s) = [nextWatcher s]
           \<and> nextWatcher s \<notin> set (map j_watcher (started s))
           \<and> j_watcher (last (started (runImpl env provider s))) = nextWatcher s)
       \<and> (\<forall>env w. m_watcher s \<noteq> Some w \<longrightarrow> watcherFinished env w s = s)
       \<and> (\<forall>env env' provider w. m_watcher s = Some w \<longrightarrow>
             watcherFinished env' w (runImpl env provider s) = runImpl env provider s)
       \<and> (\<forall>env w. m_watcher s = Some w \<longrightarrow> watcherFinished env w s = cleanUp env s)
       \<and> (\<forall>w. m_watcher s = Some w \<longrightarrow> destructor s = [Cancel w, WaitForFinished w])
       \<and> (m_watcher s = None \<longrightarrow> destructor s = [])"
proof -
  have inv: "tracked_inv s"
    unfolding reached by (rule tracked_inv_exec) (rule tracked_inv_ctor)
  have ids: "map j_watcher (started s) = [0..<nextWatcher s]"
    using inv by (simp add: tracked_inv_def)
  have alive: "watchers s = (case m_watcher s of None \<Rightarrow> [] | Some w \<Rightarrow> [w])"
    using inv by (simp add: tracked_inv_def split: option.splits)
  have latest: "Suc w = nextWatcher s" if "m_watcher s = Some w" for w
    using inv that by (simp add: tracked_inv_def)
  have last_job: "started s \<noteq> [] \<and> j_watcher (last (started s)) = w" if "m_watcher s = Some w" for w
  proof -
    have n: "nextWatcher s = Suc w" using latest [OF that] by simp
    have "map j_watcher (started s) = [0..<w] @ [w]" using ids n by simp
    then have ne: "started s \<noteq> []" and "last (map j_watcher (started s)) = w" by auto
    then show ?thesis by (simp add: last_map)
  qed
  have c1: "(m_watcher s = None \<and> watchers s = [])
          \<or> (\<exists>w. m_watcher s = Some w \<and> watchers s = [w] \<and> started s \<noteq> []
                   \<and> j_watcher (last (started s)) = w)"
    using alive last_job by (cases "m_watcher s") auto
  have c2: "distinct (map j_watcher (started s))"
    unfolding ids by simp
  have c3: "m_watcher (runImpl env provider s) = Some (nextWatcher s)
           \<and> watchers (runImpl env provider s) = [nextWatcher s]
           \<and> nextWatcher s \<notin> set (map j_watcher (started s))
           \<and> j_watcher (last (started (runImpl env provider s))) = nextWatcher s" for env provider
    unfolding ids using alive by (simp add: runImpl_def Let_def split: option.splits)
  have c4: "watcherFinished env w s = s" if "m_watcher s \<noteq> Some w" for env w
    using that alive by (simp add: watcherFinished_def split: option.splits)
  have c5: "watcherFinished env' w (runImpl env provider s) = runImpl env provider s"
    if "m_watcher s = Some w" for env env' provider w
  proof -
    have "w \<noteq> nextWatcher s" using latest [OF that] by simp
    then show ?thesis using c3 [of env provider] by (simp add: watcherFinished_def)
  qed
  have c6: "watcherFinished env w s = cleanUp env s" if "m_watcher s = Some w" for env w
    using that alive by (simp add: watcherFinished_def)
  have c7: "destructor s = [Cancel w, WaitForFinished w]" if "m_watcher s = Some w" for w
    using that by (simp add: destructor_def)
  have c8: "m_watcher s = None \<longrightarrow> destructor s = []"
    by (simp add: destructor_def)
  show ?thesis using c1 c2 c3 c4 c5 c6 c7 c8 by blast
qed

theorem one_tracked_run_witness:
  "m_watcher (exec [(example_ide, DeferredRun), (example_ide, RunBytes (Bytes ''edited''))]
                (ExtraCompiler_ctor example_ide 0 ''a.ui'' [''ui_a.h''])) = Some 1
   \<and> watcherFinished (example_ide\<lparr>futureResult := (\<lambda>w. Some [(''ui_a.h'', Bytes ''stale'')])\<rparr>) 0
        (exec [(example_ide, DeferredRun), (example_ide, RunBytes (Bytes ''edited''))]
           (ExtraCompiler_ctor example_ide 0 ''a.ui'' [''ui_a.h'']))
      = exec [(example_ide, DeferredRun), (example_ide, RunBytes (Bytes ''edited''))]
           (ExtraCompiler_ctor example_ide 0 ''a.ui'' [''ui_a.h''])
   \<and> content (watcherFinished (example_ide\<lparr>futureResult := (\<lambda>w. Some [(''ui_a.h'', Bytes ''new'')])\<rparr>) 1
        (exec [(example_ide, DeferredRun), (example_ide, RunBytes (Bytes ''edited''))]
           (ExtraCompiler_ctor example_ide 0 ''a.ui'' [''ui_a.h'']))) ''ui_a.h'' = Bytes ''new''
   \<and> destructor (exec [(example_ide, DeferredRun), (example_ide, RunBytes (Bytes ''edited''))]
           (ExtraCompiler_ctor example_ide 0 ''a.ui'' [''ui_a.h''])) = [Cancel 1, WaitForFinished 1]"
proof -
  have s: "exec [(example_ide, DeferredRun), (example_ide, RunBytes (Bytes ''edited''))]
                (ExtraCompiler_ctor example_ide 0 ''a.ui'' [''ui_a.h''])
     = \<lparr>project = 0, source = ''a.ui'', contents = [(''ui_a.h'', Bytes ''old'')],
        compileTime = MSecs 3, lastEditor = None, dirty = False, timer = None,
        connections = [], m_watcher = Some 1, watchers = [1], nextWatcher = 2,
        emitted = [''ui_a.h''],
        started = [\<lparr>j_watcher = 0, j_cmd = ''uic'', j_workDir = [], j_args = [],
                     j_provider = FromFile ''a.ui'', j_env = []\<rparr>,
                   \<lparr>j_watcher = 1, j_cmd = ''uic'', j_workDir = [], j_args = [],
                     j_provider = Literal (Bytes ''edited''), j_env = []\<rparr>],
        deferred = 0\<rparr>"
    by (simp add: exec_def ExtraCompiler_ctor_def scan_targets_def scan_target_def initial_def
          example_ide_def example_files_def lastModified_def open_readAll_def dt_greater_def
          setContent_def qba_eq_def deferredRun_def run_file_def run_bytes_def runImpl_def Let_def)
  show ?thesis
    using one_tracked_run [OF s [symmetric]]
    by (simp add: s cleanUp_def install_def setContent_def setCompileTime_def content_def
          hash_value_def qba_eq_def Let_def)
qed

text \<open>
  C9. In every state that an instance reaches from its construction, through any history
  of events, the keys of the content hash are the targets given to the constructor, each
  once and in the same order of enumeration as after construction; every declared target
  has an entry. \<^verbatim>\<open>setContent\<close> for a path that is not a declared target leaves the
  object as it is, so it changes no content and emits nothing.
\<close>

theorem target_set_is_fixed:
  assumes reached: "s = exec history (ExtraCompiler_ctor env0 proj src tgts)"
  shows "set (targets s) = set tgts
       \<and> distinct (targets s)
       \<and> targets s = targets (ExtraCompiler_ctor env0 proj src tgts)
       \<and> (\<forall>file. file \<in> set tgts \<longrightarrow> (\<exists>bytes. map_of (contents s) file = Some bytes))
       \<and> (\<forall>file bytes. file \<notin> set tgts \<longrightarrow> setContent file bytes s = s)"
proof -
  have fixed: "targets s = targets (ExtraCompiler_ctor env0 proj src tgts)"
    unfolding reached by (rule targets_exec)
  have keys: "set (targets s) = set tgts" and dist: "distinct (targets s)"
    unfolding fixed targets_ctor by (rule targets_initial)+
  have present: "\<exists>bytes. map_of (contents s) f = Some bytes" if "f \<in> set tgts" for f
    using that keys undeclared_iff [of s f] by auto
  have absent: "setContent f bytes s = s" if "f \<notin> set tgts" for f bytes
    using that keys by (simp add: setContent_undeclared undeclared_iff)
  show ?thesis using fixed keys dist present absent by blast
qed

theorem target_set_is_fixed_witness:
  "targets (exec [(example_ide, DeferredRun), (example_ide, SetContent ''ui_b.h'' (Bytes ''X'')),
                  (example_ide, BuildStateChanged 0)]
              (ExtraCompiler_ctor example_ide 0 ''a.ui'' [''ui_a.h''])) = [''ui_a.h'']
   \<and> setContent ''ui_b.h'' (Bytes ''X'')
        (exec [(example_ide, DeferredRun), (example_ide, SetContent ''ui_b.h'' (Bytes ''X'')),
               (example_ide, BuildStateChanged 0)]
           (ExtraCompiler_ctor example_ide 0 ''a.ui'' [''ui_a.h'']))
      = exec [(example_ide, DeferredRun), (example_ide, SetContent ''ui_b.h'' (Bytes ''X'')),
               (example_ide, BuildStateChanged 0)]
           (ExtraCompiler_ctor example_ide 0 ''a.ui'' [''ui_a.h''])"
proof -
  have t: "targets (ExtraCompiler_ctor example_ide 0 ''a.ui'' [''ui_a.h'']) = [''ui_a.h'']"
    unfolding targets_ctor by (simp add: targets_def initial_def hash_keys_def)
  show ?thesis
    using target_set_is_fixed [OF refl, of "[(example_ide, DeferredRun),
              (example_ide, SetContent ''ui_b.h'' (Bytes ''X'')), (example_ide, BuildStateChanged 0)]"
            example_ide 0 "''a.ui''" "[''ui_a.h'']"]
    by (simp add: t)
qed

text \<open>
  C3, as stated, fails: a target that exists on disk but cannot be opened is not loaded.
  In \<open>locked_files\<close> the header exists, is newer than the form and holds bytes, and
  after construction its cached content is still empty.
\<close>

theorem ctor_loads_existing_target_counterexample:
  "map_option f_data (locked_files ''ui_a.h'') = Some (Bytes ''generated'')
   \<and> \<not> qba_eq (content (ExtraCompiler_ctor (example_ide\<lparr>files := locked_files\<rparr>) 0 ''a.ui''
                         [''ui_a.h'']) ''ui_a.h'')
               (Bytes ''generated'')"
  by (simp add: ExtraCompiler_ctor_def scan_targets_def scan_target_def initial_def
        example_ide_def locked_files_def lastModified_def open_readAll_def dt_greater_def
        content_def hash_value_def qba_eq_def Let_def)

text \<open>
  C3, amended. After construction with a source file and targets:
  every target that can be opened for reading holds the bytes read from it, and a path
  that cannot be opened holds nothing; the scan of the targets ends dirty exactly if some
  target is missing or has a modification time before that of the source; the watermark
  is invalid exactly if no target exists, and otherwise it is the modification time of an
  existing target and no existing target has an earlier one; the constructor itself starts
  no run and leaves the dirty flag clear; and it schedules one deferred call if the scan
  ended dirty and none otherwise, which, when the event loop makes it, starts one run that
  reads the source file.
\<close>

theorem ctor_scans_targets:
  assumes fs: "fs = files env"
    and scanned: "scanned = scan_targets fs tgts (initial proj src tgts)"
    and s: "s = ExtraCompiler_ctor env proj src tgts"
  shows "(\<forall>t bytes. t \<in> set tgts \<and> open_readAll fs t = Some bytes \<longrightarrow> qba_eq (content s t) bytes)
       \<and> (\<forall>t. open_readAll fs t = None \<longrightarrow> content s t = Null)
       \<and> dirty scanned = (\<exists>t\<in>set tgts. fs t = None \<or> dt_less (lastModified fs t) (lastModified fs src))
       \<and> (compileTime s = Invalid) = (\<forall>t\<in>set tgts. fs t = None)
       \<and> (\<forall>m. compileTime s = MSecs m \<longrightarrow>
             (\<exists>t\<in>set tgts. lastModified fs t = MSecs m)
           \<and> (\<forall>t\<in>set tgts. \<forall>m'. lastModified fs t = MSecs m' \<longrightarrow> m \<le> m'))
       \<and> \<not> dirty s \<and> started s = [] \<and> m_watcher s = None
       \<and> deferred s = (if dirty scanned then 1 else 0)
       \<and> (\<forall>later. map j_provider (started (deferredRun later s))
                      = (if dirty scanned then [FromFile src] else [])
                  \<and> deferred (deferredRun later s) = 0)"
proof -
  have ctor: "s = (if dirty scanned then scanned\<lparr>dirty := False, deferred := Suc (deferred scanned)\<rparr>
                   else scanned)"
    by (simp add: s scanned fs ExtraCompiler_ctor_def Let_def)
  have cont: "content s t = content scanned t" for t
    by (simp add: ctor content_def)
  have ct: "compileTime s = compileTime scanned"
    by (simp add: ctor)
  have sc_fields: "started scanned = []" "deferred scanned = 0" "source scanned = src"
    "m_watcher scanned = None"
    by (simp_all add: scanned scan_targets_fields m_watcher_scan_targets initial_fields)
  have c1: "qba_eq (content s t) bytes" if "t \<in> set tgts" "open_readAll fs t = Some bytes" for t bytes
    unfolding cont scanned
    by (rule content_scan_targets_readable [OF that(2) _ that(1)]) (simp add: map_of_initial that(1))
  have c2: "content s t = Null" if "open_readAll fs t = None" for t
    unfolding cont scanned by (simp add: content_scan_targets_unreadable [OF that] content_initial)
  have c3: "dirty scanned = (\<exists>t\<in>set tgts. fs t = None \<or> dt_less (lastModified fs t) (lastModified fs src))"
    unfolding scanned by (simp add: dirty_scan_targets initial_fields)
  have c4: "(compileTime s = Invalid) = (\<forall>t\<in>set tgts. fs t = None)"
    unfolding ct scanned by (simp add: compileTime_scan_targets_Invalid initial_fields)
  have c5: "(\<exists>t\<in>set tgts. lastModified fs t = MSecs m)
           \<and> (\<forall>t\<in>set tgts. \<forall>m'. lastModified fs t = MSecs m' \<longrightarrow> m \<le> m')"
    if "compileTime s = MSecs m" for m
    using compileTime_scan_targets_least [of fs tgts "initial proj src tgts" m] that
    unfolding ct scanned by (simp add: initial_fields)
  have c6: "\<not> dirty s \<and> started s = [] \<and> m_watcher s = None"
    by (simp add: ctor sc_fields)
  have c7: "deferred s = (if dirty scanned then 1 else 0)"
    by (simp add: ctor sc_fields)
  have c8: "map j_provider (started (deferredRun later s)) = (if dirty scanned then [FromFile src] else [])
          \<and> deferred (deferredRun later s) = 0" for later
    by (simp add: ctor sc_fields deferredRun_def run_file_def runImpl_def Let_def)
  show ?thesis using c1 c2 c3 c4 c5 c6 c7 c8 by blast
qed

theorem ctor_scans_targets_witness:
  "content (ExtraCompiler_ctor example_ide 0 ''a.ui'' [''ui_a.h'']) ''ui_a.h'' = Bytes ''old''
   \<and> dirty (scan_targets example_files [''ui_a.h''] (initial 0 ''a.ui'' [''ui_a.h'']))
   \<and> compileTime (ExtraCompiler_ctor example_ide 0 ''a.ui'' [''ui_a.h'']) = MSecs 3
   \<and> deferred (ExtraCompiler_ctor example_ide 0 ''a.ui'' [''ui_a.h'']) = 1"
  using ctor_scans_targets [where env = example_ide and fs = example_files and proj = 0
          and src = "''a.ui''" and tgts = "[''ui_a.h'']", OF _ refl refl]
  by (simp add: ExtraCompiler_ctor_def scan_targets_def scan_target_def initial_def
        example_ide_def example_files_def lastModified_def open_readAll_def dt_greater_def
        content_def hash_value_def setContent_def qba_eq_def Let_def)

text \<open>
  C4. The claim: when the watermark is older than the source, every target whose file is
  newer than the source and than the watermark is adopted, each target on its own. The
  code does not do this when a build has written more than one target. Source \<open>a.ui\<close>
  has time 5; both targets had time 3 at construction, so the watermark is 3. A build writes
  \<open>ui_a.h\<close> at time 10 and \<open>ui_a.cpp\<close> at time 8. With \<open>ui_a.h\<close> enumerated first, it is
  adopted and moves the watermark to 10; \<open>ui_a.cpp\<close>, newer than the source and than the
  watermark 3 and readable, is skipped and keeps its old bytes, and a second call changes
  nothing. On the same disk the other order of enumeration adopts both. With the other
  order and the two times exchanged it is \<open>ui_a.h\<close> that stays old. For a source created
  anew, with no target at construction, the skipped target stays empty.
\<close>

theorem onTargetsBuilt_skips_newer_target:
  "compileTime (ExtraCompiler_ctor (example_ide\<lparr>files := stale_files\<rparr>) 0 ''a.ui''
                    [''ui_a.h'', ''ui_a.cpp'']) = MSecs 3
   \<and> targets (ExtraCompiler_ctor (example_ide\<lparr>files := stale_files\<rparr>) 0 ''a.ui''
                    [''ui_a.h'', ''ui_a.cpp'']) = [''ui_a.h'', ''ui_a.cpp'']
   \<and> lastModified (built_files 10 8) ''a.ui'' = MSecs 5
   \<and> lastModified (built_files 10 8) ''ui_a.cpp'' = MSecs 8
   \<and> open_readAll (built_files 10 8) ''ui_a.cpp'' = Some (Bytes ''C2'')
   \<and> contents (onTargetsBuilt (example_ide\<lparr>files := built_files 10 8\<rparr>) 0
                (ExtraCompiler_ctor (example_ide\<lparr>files := stale_files\<rparr>) 0 ''a.ui''
                    [''ui_a.h'', ''ui_a.cpp'']))
       = [(''ui_a.h'', Bytes ''H2''), (''ui_a.cpp'', Bytes ''C1'')]
   \<and> compileTime (onTargetsBuilt (example_ide\<lparr>files := built_files 10 8\<rparr>) 0
                (ExtraCompiler_ctor (example_ide\<lparr>files := stale_files\<rparr>) 0 ''a.ui''
                    [''ui_a.h'', ''ui_a.cpp''])) = MSecs 10
   \<and> onTargetsBuilt (example_ide\<lparr>files := built_files 10 8\<rparr>) 0
        (onTargetsBuilt (example_ide\<lparr>files := built_files 10 8\<rparr>) 0
                (ExtraCompiler_ctor (example_ide\<lparr>files := stale_files\<rparr>) 0 ''a.ui''
                    [''ui_a.h'', ''ui_a.cpp'']))
       = onTargetsBuilt (example_ide\<lparr>files := built_files 10 8\<rparr>) 0
                (ExtraCompiler_ctor (example_ide\<lparr>files := stale_files\<rparr>) 0 ''a.ui''
                    [''ui_a.h'', ''ui_a.cpp''])
   \<and> targets (ExtraCompiler_ctor (example_ide\<lparr>files := stale_files\<rparr>) 0 ''a.ui''
                    [''ui_a.cpp'', ''ui_a.h'']) = [''ui_a.cpp'', ''ui_a.h'']
   \<and> contents (onTargetsBuilt (example_ide\<lparr>files := built_files 10 8\<rparr>) 0
                (ExtraCompiler_ctor (example_ide\<lparr>files := stale_files\<rparr>) 0 ''a.ui''
                    [''ui_a.cpp'', ''ui_a.h'']))
       = [(''ui_a.cpp'', Bytes ''C2''), (''ui_a.h'', Bytes ''H2'')]
   \<and> lastModified (built_files 8 10) ''ui_a.h'' = MSecs 8
   \<and> open_readAll (built_files 8 10) ''ui_a.h'' = Some (Bytes ''H2'')
   \<and> contents (onTargetsBuilt (example_ide\<lparr>files := built_files 8 10\<rparr>) 0
                (ExtraCompiler_ctor (example_ide\<lparr>files := stale_files\<rparr>) 0 ''a.ui''
                    [''ui_a.cpp'', ''ui_a.h'']))
       = [(''ui_a.cpp'', Bytes ''C2''), (''ui_a.h'', Bytes ''H1'')]
   \<and> compileTime (ExtraCompiler_ctor (example_ide\<lparr>files := source_only_files\<rparr>) 0 ''a.ui''
                    [''ui_a.h'', ''ui_a.cpp'']) = Invalid
   \<and> contents (onTargetsBuilt (example_ide\<lparr>files := built_files 10 8\<rparr>) 0
                (ExtraCompiler_ctor (example_ide\<lparr>files := source_only_files\<rparr>) 0 ''a.ui''
                    [''ui_a.h'', ''ui_a.cpp'']))
       = [(''ui_a.h'', Bytes ''H2''), (''ui_a.cpp'', Null)]"
proof -
  have hc: "ExtraCompiler_ctor (example_ide\<lparr>files := stale_files\<rparr>) 0 ''a.ui'' [''ui_a.h'', ''ui_a.cpp'']
     = \<lparr>project = 0, source = ''a.ui'',
        contents = [(''ui_a.h'', Bytes ''H1''), (''ui_a.cpp'', Bytes ''C1'')],
        compileTime = MSecs 3, lastEditor = None, dirty = False, timer = None,
        connections = [], m_watcher = None, watchers = [], nextWatcher = 0,
        emitted = [''ui_a.h'', ''ui_a.cpp''], started = [], deferred = 1\<rparr>"
    by (simp add: ExtraCompiler_ctor_def scan_targets_def scan_target_def initial_def
          example_ide_def stale_files_def lastModified_def open_readAll_def dt_greater_def
          setContent_def qba_eq_def Let_def)
  have ch: "ExtraCompiler_ctor (example_ide\<lparr>files := stale_files\<rparr>) 0 ''a.ui'' [''ui_a.cpp'', ''ui_a.h'']
     = \<lparr>project = 0, source = ''a.ui'',
        contents = [(''ui_a.cpp'', Bytes ''C1''), (''ui_a.h'', Bytes ''H1'')],
        compileTime = MSecs 3, lastEditor = None, dirty = False, timer = None,
        connections = [], m_watcher = None, watchers = [], nextWatcher = 0,
        emitted = [''ui_a.cpp'', ''ui_a.h''], started = [], deferred = 1\<rparr>"
    by (simp add: ExtraCompiler_ctor_def scan_targets_def scan_target_def initial_def
          example_ide_def stale_files_def lastModified_def open_readAll_def dt_greater_def
          setContent_def qba_eq_def Let_def)
  have fresh: "ExtraCompiler_ctor (example_ide\<lparr>files := source_only_files\<rparr>) 0 ''a.ui'' [''ui_a.h'', ''ui_a.cpp'']
     = \<lparr>project = 0, source = ''a.ui'',
        contents = [(''ui_a.h'', Null), (''ui_a.cpp'', Null)],
        compileTime = Invalid, lastEditor = None, dirty = False, timer = None,
        connections = [], m_watcher = None, watchers = [], nextWatcher = 0,
        emitted = [], started = [], deferred = 1\<rparr>"
    by (simp add: ExtraCompiler_ctor_def scan_targets_def scan_target_def initial_def
          example_ide_def source_only_files_def lastModified_def open_readAll_def Let_def)
  have pass1: "onTargetsBuilt (example_ide\<lparr>files := built_files 10 8\<rparr>) 0
                (ExtraCompiler_ctor (example_ide\<lparr>files := stale_files\<rparr>) 0 ''a.ui''
                    [''ui_a.h'', ''ui_a.cpp''])
     = \<lparr>project = 0, source = ''a.ui'',
        contents = [(''ui_a.h'', Bytes ''H2''), (''ui_a.cpp'', Bytes ''C1'')],
        compileTime = MSecs 10, lastEditor = None, dirty = False, timer = None,
        connections = [], m_watcher = None, watchers = [], nextWatcher = 0,
        emitted = [''ui_a.h'', ''ui_a.cpp'', ''ui_a.h''], started = [], deferred = 1\<rparr>"
    unfolding hc
    by (simp add: onTargetsBuilt_def reconcile_target_def targets_def hash_keys_def
          example_ide_def built_files_def lastModified_def open_readAll_def dt_greater_def
          dt_ge_def setContent_def qba_eq_def Let_def)
  have again: "onTargetsBuilt (example_ide\<lparr>files := built_files 10 8\<rparr>) 0
        (onTargetsBuilt (example_ide\<lparr>files := built_files 10 8\<rparr>) 0
                (ExtraCompiler_ctor (example_ide\<lparr>files := stale_files\<rparr>) 0 ''a.ui''
                    [''ui_a.h'', ''ui_a.cpp'']))
       = onTargetsBuilt (example_ide\<lparr>files := built_files 10 8\<rparr>) 0
                (ExtraCompiler_ctor (example_ide\<lparr>files := stale_files\<rparr>) 0 ''a.ui''
                    [''ui_a.h'', ''ui_a.cpp''])"
    unfolding pass1
    by (simp add: onTargetsBuilt_def example_ide_def built_files_def lastModified_def dt_ge_def)
  have other: "contents (onTargetsBuilt (example_ide\<lparr>files := built_files 10 8\<rparr>) 0
                (ExtraCompiler_ctor (example_ide\<lparr>files := stale_files\<rparr>) 0 ''a.ui''
                    [''ui_a.cpp'', ''ui_a.h'']))
       = [(''ui_a.cpp'', Bytes ''C2''), (''ui_a.h'', Bytes ''H2'')]"
    unfolding ch
    by (simp add: onTargetsBuilt_def reconcile_target_def targets_def hash_keys_def
          example_ide_def built_files_def lastModified_def open_readAll_def dt_greater_def
          dt_ge_def setContent_def qba_eq_def Let_def)
  have mirrored: "contents (onTargetsBuilt (example_ide\<lparr>files := built_files 8 10\<rparr>) 0
                (ExtraCompiler_ctor (example_ide\<lparr>files := stale_files\<rparr>) 0 ''a.ui''
                    [''ui_a.cpp'', ''ui_a.h'']))
       = [(''ui_a.cpp'', Bytes ''C2''), (''ui_a.h'', Bytes ''H1'')]"
    unfolding ch
    by (simp add: onTargetsBuilt_def reconcile_target_def targets_def hash_keys_def
          example_ide_def built_files_def lastModified_def open_readAll_def dt_greater_def
          dt_ge_def setContent_def qba_eq_def Let_def)
  have created: "contents (onTargetsBuilt (example_ide\<lparr>files := built_files 10 8\<rparr>) 0
                (ExtraCompiler_ctor (example_ide\<lparr>files := source_only_files\<rparr>) 0 ''a.ui''
                    [''ui_a.h'', ''ui_a.cpp'']))
       = [(''ui_a.h'', Bytes ''H2''), (''ui_a.cpp'', Null)]"
    unfolding fresh
    by (simp add: onTargetsBuilt_def reconcile_target_def targets_def hash_keys_def
          example_ide_def built_files_def lastModified_def open_readAll_def dt_greater_def
          dt_ge_def setContent_def qba_eq_def Let_def)
  have times: "lastModified (built_files 10 8) ''a.ui'' = MSecs 5"
    "lastModified (built_files 10 8) ''ui_a.cpp'' = MSecs 8"
    "open_readAll (built_files 10 8) ''ui_a.cpp'' = Some (Bytes ''C2'')"
    "lastModified (built_files 8 10) ''ui_a.h'' = MSecs 8"
    "open_readAll (built_files 8 10) ''ui_a.h'' = Some (Bytes ''H2'')"
    by (simp_all add: lastModified_def open_readAll_def built_files_def)
  have c1: "compileTime (ExtraCompiler_ctor (example_ide\<lparr>files := stale_files\<rparr>) 0 ''a.ui''
                    [''ui_a.h'', ''ui_a.cpp'']) = MSecs 3"
    and c2: "targets (ExtraCompiler_ctor (example_ide\<lparr>files := stale_files\<rparr>) 0 ''a.ui''
                    [''ui_a.h'', ''ui_a.cpp'']) = [''ui_a.h'', ''ui_a.cpp'']"
    by (simp_all add: hc targets_def hash_keys_def)
  have c3: "targets (ExtraCompiler_ctor (example_ide\<lparr>files := stale_files\<rparr>) 0 ''a.ui''
                    [''ui_a.cpp'', ''ui_a.h'']) = [''ui_a.cpp'', ''ui_a.h'']"
    by (simp add: ch targets_def hash_keys_def)
  have c4: "compileTime (ExtraCompiler_ctor (example_ide\<lparr>files := source_only_files\<rparr>) 0 ''a.ui''
                    [''ui_a.h'', ''ui_a.cpp'']) = Invalid"
    by (simp add: fresh)
  have c5: "contents (onTargetsBuilt (example_ide\<lparr>files := built_files 10 8\<rparr>) 0
                (ExtraCompiler_ctor (example_ide\<lparr>files := stale_files\<rparr>) 0 ''a.ui''
                    [''ui_a.h'', ''ui_a.cpp'']))
       = [(''ui_a.h'', Bytes ''H2''), (''ui_a.cpp'', Bytes ''C1'')]"
    and c6: "compileTime (onTargetsBuilt (example_ide\<lparr>files := built_files 10 8\<rparr>) 0
                (ExtraCompiler_ctor (example_ide\<lparr>files := stale_files\<rparr>) 0 ''a.ui''
                    [''ui_a.h'', ''ui_a.cpp''])) = MSecs 10"
    by (simp_all add: pass1)
  show ?thesis
    by (intro conjI) (fact c1 c2 c3 c4 c5 c6 again other mirrored created times)+
qed

theorem onTargetsBuilt_skips_newer_target_witness:
  "project (ExtraCompiler_ctor (example_ide\<lparr>files := stale_files\<rparr>) 0 ''a.ui''
              [''ui_a.h'', ''ui_a.cpp'']) = 0
   \<and> \<not> isBuilding (example_ide\<lparr>files := built_files 10 8\<rparr>) 0
   \<and> \<not> dt_ge (compileTime (ExtraCompiler_ctor (example_ide\<lparr>files := stale_files\<rparr>) 0 ''a.ui''
                              [''ui_a.h'', ''ui_a.cpp'']))
               (lastModified (built_files 10 8) ''a.ui'')
   \<and> dt_greater (lastModified (built_files 10 8) ''ui_a.cpp'') (lastModified (built_files 10 8) ''a.ui'')
   \<and> dt_less (compileTime (ExtraCompiler_ctor (example_ide\<lparr>files := stale_files\<rparr>) 0 ''a.ui''
                              [''ui_a.h'', ''ui_a.cpp'']))
               (lastModified (built_files 10 8) ''ui_a.cpp'')
   \<and> content (onTargetsBuilt (example_ide\<lparr>files := built_files 10 8\<rparr>) 0
                (ExtraCompiler_ctor (example_ide\<lparr>files := stale_files\<rparr>) 0 ''a.ui''
                    [''ui_a.h'', ''ui_a.cpp''])) ''ui_a.cpp'' = Bytes ''C1''"
proof -
  have p: "project (ExtraCompiler_ctor (example_ide\<lparr>files := stale_files\<rparr>) 0 ''a.ui''
              [''ui_a.h'', ''ui_a.cpp'']) = 0"
    by (simp add: ExtraCompiler_ctor_def scan_targets_def initial_def Let_def
          foldl_preserves [where g = project] scan_target_def setContent_def split: option.splits)
  have nb: "\<not> isBuilding (example_ide\<lparr>files := built_files 10 8\<rparr>) 0"
    by (simp add: example_ide_def)
  have ct: "compileTime (ExtraCompiler_ctor (example_ide\<lparr>files := stale_files\<rparr>) 0 ''a.ui''
                    [''ui_a.h'', ''ui_a.cpp'']) = MSecs 3"
    and src: "lastModified (built_files 10 8) ''a.ui'' = MSecs 5"
    and impl: "lastModified (built_files 10 8) ''ui_a.cpp'' = MSecs 8"
    and kept: "contents (onTargetsBuilt (example_ide\<lparr>files := built_files 10 8\<rparr>) 0
                (ExtraCompiler_ctor (example_ide\<lparr>files := stale_files\<rparr>) 0 ''a.ui''
                    [''ui_a.h'', ''ui_a.cpp'']))
       = [(''ui_a.h'', Bytes ''H2''), (''ui_a.cpp'', Bytes ''C1'')]"
    using onTargetsBuilt_skips_newer_target by blast+
  show ?thesis
    unfolding ct src impl content_def kept
    using p nb by (simp add: hash_value_def dt_ge_def dt_greater_def)
qed

end
